theory Spec2Isabelle
  imports Main "HOL-Library.Word" "HOL-Library.Multiset"
begin

section \<open>The disk cache coordinator (cacheObjects)\<close>

text \<open>
  A shallow embedding of the cache object layer: the struct \<open>cacheObjects\<close>, its
  lock-framed drive accessors, the two routers \<open>getCacheLoc\<close> and \<open>getCacheToLoc\<close>,
  the object operations and the format migration.

  The coordinator calls code that lives elsewhere (the backend object layer, the
  methods of \<open>diskCache\<close>, the namespace lock map, cache-control parsing). Those
  are parameters: the backend functions are the function fields of \<open>cacheObjects\<close>,
  as in the source, and everything else is a field of the record \<open>env\<close>. Each
  of them reads or transforms an abstract world \<open>'w\<close> (drive contents, lock table,
  clock, backend). The coordinator threads a state through its calls that holds
  the world, the trace of the calls it issued, and the goroutines it started.
\<close>

subsection \<open>Data\<close>

datatype error =
    ObjectNotFound string string
  | BackendDown
  | errDiskNotFound
  | OperationTimedOut
  | OtherError string

text \<open>
  A \<open>time.Time\<close> is an instant and a location; \<open>==\<close> and \<open>!=\<close> on the struct
  compare both.
\<close>

datatype Time = Time (instant: int) (location: string)

record ObjectInfo =
  ETag :: string
  ModTime :: Time
  Size :: int
  ContentType :: string
  ContentEncoding :: string
  Expires :: Time
  UserDefined :: "string \<rightharpoonup> string"

text \<open>A reader is its \<open>ObjInfo\<close> and the identity of the stream behind it.\<close>

record GetObjectReader =
  ObjInfo :: ObjectInfo
  stream :: nat

type_synonym HTTPRangeSpec = "int \<times> int"
type_synonym Header = "(string \<times> string) list"

datatype LockType = noLock | readLock | writeLock

record ObjectOptions =
  optUserDefined :: "string \<rightharpoonup> string"

datatype diskCache = DiskCache (dir: string)

text \<open>The calls the coordinator issues, in the order it issues them.\<close>

datatype event =
    BackendGetObjectNInfo string string "HTTPRangeSpec option"
  | BackendGetObjectInfo string string
  | BackendDeleteObject string string
  | NSGetLock string string nat bool
  | NSUnlock string string
  | NSGetRLock string string nat bool
  | NSRUnlock string string
  | CacheGet diskCache string string
  | CacheStat diskCache string string
  | CachePut diskCache string string
  | CacheDelete diskCache string string
  | CacheUpdateMetadata diskCache string string ObjectInfo ObjectInfo
  | ReaderClose GetObjectReader
  | PurgeSignal diskCache
  | MigMutexLock
  | MigMutexUnlock
  | SetMigrating bool
  | MigrateOldCache diskCache
  | StartPurge diskCache

text \<open>Goroutines started with \<open>go\<close>: recorded when started, run by \<open>runTask\<close>.\<close>

datatype task =
    RangeFill diskCache string string Header LockType ObjectOptions
  | TeeFill diskCache string string GetObjectReader

record 'w state =
  world :: 'w
  trace :: "event list"
  tasks :: "task list"

text \<open>
  What the coordinator uses and the source files at hand do not define:
  the CRC-32 checksum and the wildcard matcher, the constants
  \<open>globalObjectTimeout\<close> and \<open>timeSentinel\<close>, \<open>cacheControlOpts\<close> with
  \<open>isEmpty\<close> and \<open>isStale\<close> (which reads the clock), \<open>ObjectInfo.IsCacheable\<close>,
  the methods of \<open>diskCache\<close>, the namespace lock, \<open>GetObjectReader.Close\<close>,
  \<open>NewGetObjectReaderFromReader\<close> and \<open>migrateOldCache\<close>.
\<close>

record ('w, 'cc) env =
  crc32Checksum :: "string \<Rightarrow> 32 word"
  MatchSimple :: "string \<Rightarrow> string \<Rightarrow> bool"
  globalObjectTimeout :: nat
  timeSentinel :: Time
  formatHTTPTime :: "Time \<Rightarrow> string"
  cacheControlOpts :: "ObjectInfo \<Rightarrow> 'cc"
  isEmpty :: "'cc \<Rightarrow> bool"
  isStale :: "'w \<Rightarrow> 'cc \<Rightarrow> Time \<Rightarrow> bool"
  IsCacheable :: "ObjectInfo \<Rightarrow> bool"
  IsOnline :: "'w \<Rightarrow> diskCache \<Rightarrow> bool"
  Exists :: "'w \<Rightarrow> diskCache \<Rightarrow> string \<Rightarrow> string \<Rightarrow> bool"
  diskUsageLow :: "'w \<Rightarrow> diskCache \<Rightarrow> bool"
  diskAvailable :: "'w \<Rightarrow> diskCache \<Rightarrow> int \<Rightarrow> bool"
  dcGet :: "diskCache \<Rightarrow> string \<Rightarrow> string \<Rightarrow> HTTPRangeSpec option \<Rightarrow> Header
              \<Rightarrow> ObjectOptions \<Rightarrow> 'w \<Rightarrow> (error + GetObjectReader) \<times> 'w"
  dcStat :: "diskCache \<Rightarrow> string \<Rightarrow> string \<Rightarrow> 'w \<Rightarrow> (error + ObjectInfo) \<times> 'w"
  dcPut :: "diskCache \<Rightarrow> string \<Rightarrow> string \<Rightarrow> GetObjectReader \<Rightarrow> int \<Rightarrow> ObjectOptions
              \<Rightarrow> 'w \<Rightarrow> error option \<times> 'w"
  dcDelete :: "diskCache \<Rightarrow> string \<Rightarrow> string \<Rightarrow> 'w \<Rightarrow> error option \<times> 'w"
  updateMetadataIfChanged :: "diskCache \<Rightarrow> string \<Rightarrow> string \<Rightarrow> ObjectInfo \<Rightarrow> ObjectInfo
              \<Rightarrow> 'w \<Rightarrow> error option \<times> 'w"
  GetLock :: "string \<Rightarrow> string \<Rightarrow> nat \<Rightarrow> 'w \<Rightarrow> error option \<times> 'w"
  Unlock :: "string \<Rightarrow> string \<Rightarrow> 'w \<Rightarrow> 'w"
  GetRLock :: "string \<Rightarrow> string \<Rightarrow> nat \<Rightarrow> 'w \<Rightarrow> error option \<times> 'w"
  RUnlock :: "string \<Rightarrow> string \<Rightarrow> 'w \<Rightarrow> 'w"
  Close :: "GetObjectReader \<Rightarrow> 'w \<Rightarrow> 'w"
  NewGetObjectReaderFromReader :: "GetObjectReader \<Rightarrow> ObjectInfo \<Rightarrow> ObjectOptions
              \<Rightarrow> 'w \<Rightarrow> (error + GetObjectReader) \<times> 'w"
  migrateOldCache :: "diskCache \<Rightarrow> 'w \<Rightarrow> error option \<times> 'w"

text \<open>
  The struct \<open>cacheObjects\<close>. A nil slot of the drive slice is \<open>None\<close>. The
  two mutexes (\<open>nsMutex\<close>, \<open>migMutex\<close>) are part of the world; their use shows in
  the trace.
\<close>

record 'w cacheObjects =
  cache :: "diskCache option list"
  exclude :: "string list"
  migrating :: bool
  GetObjectNInfoFn :: "string \<Rightarrow> string \<Rightarrow> HTTPRangeSpec option \<Rightarrow> Header \<Rightarrow> LockType
              \<Rightarrow> ObjectOptions \<Rightarrow> 'w \<Rightarrow> (error + GetObjectReader) \<times> 'w"
  GetObjectInfoFn :: "string \<Rightarrow> string \<Rightarrow> ObjectOptions \<Rightarrow> 'w \<Rightarrow> (error + ObjectInfo) \<times> 'w"
  DeleteObjectFn :: "string \<Rightarrow> string \<Rightarrow> 'w \<Rightarrow> error option \<times> 'w"
  DeleteObjectsFn :: "string \<Rightarrow> string list \<Rightarrow> 'w \<Rightarrow> (error option list \<times> error option) \<times> 'w"

subsection \<open>Issuing a call\<close>

text \<open>
  \<open>call ev f\<close> runs \<open>f\<close> on the world and appends the event \<open>ev r\<close> for its
  result \<open>r\<close> to the trace.
\<close>

definition call :: "('a \<Rightarrow> event) \<Rightarrow> ('w \<Rightarrow> 'a \<times> 'w) \<Rightarrow> 'w state \<Rightarrow> 'a \<times> 'w state" where
  "call ev f s =
     (let (r, w) = f (world s) in (r, s\<lparr>world := w, trace := trace s @ [ev r]\<rparr>))"

definition callv :: "event \<Rightarrow> ('w \<Rightarrow> 'w) \<Rightarrow> 'w state \<Rightarrow> 'w state" where
  "callv ev f s = s\<lparr>world := f (world s), trace := trace s @ [ev]\<rparr>"

definition spawn :: "task \<Rightarrow> 'w state \<Rightarrow> 'w state" where
  "spawn t s = s\<lparr>tasks := tasks s @ [t]\<rparr>"

definition logEv :: "event \<Rightarrow> 'w state \<Rightarrow> 'w state" where
  "logEv ev s = s\<lparr>trace := trace s @ [ev]\<rparr>"

subsection \<open>The router\<close>

text \<open>
  Modelled from the spec: \<open>pathJoin\<close> and \<open>crcHashMod\<close> are not among the source
  files; the spec gives \<open>index = crc32(bucket + "/" + object) mod N\<close>. With no
  slot at all the index is never used.
\<close>

definition pathJoin :: "string \<Rightarrow> string \<Rightarrow> string" where
  "pathJoin bucket object = bucket @ ''/'' @ object"

definition crcHashMod :: "('w, 'cc) env \<Rightarrow> string \<Rightarrow> nat \<Rightarrow> nat" where
  "crcHashMod E key cardinality = unat (crc32Checksum E key) mod cardinality"

definition hashIndex :: "('w, 'cc) env \<Rightarrow> 'w cacheObjects \<Rightarrow> string \<Rightarrow> string \<Rightarrow> nat" where
  "hashIndex E c bucket object = crcHashMod E (pathJoin bucket object) (length (cache c))"

text \<open>The loop \<open>for k := 0; k < numDisks; k++\<close>, as recursion over the values of \<open>k\<close>.\<close>

fun getCacheLoc_loop ::
  "('w, 'cc) env \<Rightarrow> 'w \<Rightarrow> diskCache option list \<Rightarrow> nat \<Rightarrow> nat list \<Rightarrow> error + diskCache" where
  "getCacheLoc_loop E w cs index [] = Inl errDiskNotFound"
| "getCacheLoc_loop E w cs index (k # ks) =
     (let i = (index + k) mod length cs in
      case cs ! i of
        None \<Rightarrow> getCacheLoc_loop E w cs index ks
      | Some d \<Rightarrow>
          if IsOnline E w d then Inr d
          else getCacheLoc_loop E w cs index ks)"

definition getCacheLoc ::
  "('w, 'cc) env \<Rightarrow> 'w cacheObjects \<Rightarrow> 'w \<Rightarrow> string \<Rightarrow> string \<Rightarrow> error + diskCache" where
  "getCacheLoc E c w bucket object =
     (let index = hashIndex E c bucket object;
          numDisks = length (cache c)
      in getCacheLoc_loop E w (cache c) index [0..<numDisks])"

fun getCacheToLoc_loop ::
  "('w, 'cc) env \<Rightarrow> 'w \<Rightarrow> diskCache option list \<Rightarrow> string \<Rightarrow> string \<Rightarrow> nat
     \<Rightarrow> diskCache option \<Rightarrow> nat list \<Rightarrow> error + diskCache" where
  "getCacheToLoc_loop E w cs bucket object index firstOnlineDisk [] =
     (case firstOnlineDisk of
        Some d \<Rightarrow> Inr d
      | None \<Rightarrow> Inl errDiskNotFound)"
| "getCacheToLoc_loop E w cs bucket object index firstOnlineDisk (k # ks) =
     (let i = (index + k) mod length cs in
      case cs ! i of
        None \<Rightarrow> getCacheToLoc_loop E w cs bucket object index firstOnlineDisk ks
      | Some d \<Rightarrow>
          if IsOnline E w d then
            (let firstOnlineDisk' =
                   (case firstOnlineDisk of None \<Rightarrow> Some d | Some f \<Rightarrow> Some f)
             in if Exists E w d bucket object then Inr d
                else getCacheToLoc_loop E w cs bucket object index firstOnlineDisk' ks)
          else getCacheToLoc_loop E w cs bucket object index firstOnlineDisk ks)"

definition getCacheToLoc ::
  "('w, 'cc) env \<Rightarrow> 'w cacheObjects \<Rightarrow> 'w \<Rightarrow> string \<Rightarrow> string \<Rightarrow> error + diskCache" where
  "getCacheToLoc E c w bucket object =
     (let index = hashIndex E c bucket object;
          numDisks = length (cache c)
      in getCacheToLoc_loop E w (cache c) bucket object index None [0..<numDisks])"

subsection \<open>Lock-framed drive accessors\<close>

text \<open>
  \<open>NewNSLock\<close> only names the lock of \<open>(bucket, object)\<close>; \<open>GetLock\<close> and
  \<open>GetRLock\<close> may fail (a timeout), and then the drive is not touched. The
  deferred unlock runs after the drive call has returned.
\<close>

definition delete ::
  "('w, 'cc) env \<Rightarrow> diskCache \<Rightarrow> string \<Rightarrow> string \<Rightarrow> 'w state \<Rightarrow> error option \<times> 'w state" where
  "delete E dcache bucket object s =
     (let (lerr, s1) = call (\<lambda>r. NSGetLock bucket object (globalObjectTimeout E) (r = None))
                            (GetLock E bucket object (globalObjectTimeout E)) s
      in case lerr of
           Some err \<Rightarrow> (Some err, s1)
         | None \<Rightarrow>
             (let (r, s2) = call (\<lambda>_. CacheDelete dcache bucket object)
                                 (dcDelete E dcache bucket object) s1
              in (r, callv (NSUnlock bucket object) (Unlock E bucket object) s2)))"

definition put ::
  "('w, 'cc) env \<Rightarrow> diskCache \<Rightarrow> string \<Rightarrow> string \<Rightarrow> GetObjectReader \<Rightarrow> int \<Rightarrow> ObjectOptions
     \<Rightarrow> 'w state \<Rightarrow> error option \<times> 'w state" where
  "put E dcache bucket object data size' opts s =
     (let (lerr, s1) = call (\<lambda>r. NSGetLock bucket object (globalObjectTimeout E) (r = None))
                            (GetLock E bucket object (globalObjectTimeout E)) s
      in case lerr of
           Some err \<Rightarrow> (Some err, s1)
         | None \<Rightarrow>
             (let (r, s2) = call (\<lambda>_. CachePut dcache bucket object)
                                 (dcPut E dcache bucket object data size' opts) s1
              in (r, callv (NSUnlock bucket object) (Unlock E bucket object) s2)))"

definition get ::
  "('w, 'cc) env \<Rightarrow> diskCache \<Rightarrow> string \<Rightarrow> string \<Rightarrow> HTTPRangeSpec option \<Rightarrow> Header
     \<Rightarrow> ObjectOptions \<Rightarrow> 'w state \<Rightarrow> (error + GetObjectReader) \<times> 'w state" where
  "get E dcache bucket object rs h opts s =
     (let (lerr, s1) = call (\<lambda>r. NSGetRLock bucket object (globalObjectTimeout E) (r = None))
                            (GetRLock E bucket object (globalObjectTimeout E)) s
      in case lerr of
           Some err \<Rightarrow> (Inl err, s1)
         | None \<Rightarrow>
             (let (r, s2) = call (\<lambda>_. CacheGet dcache bucket object)
                                 (dcGet E dcache bucket object rs h opts) s1
              in (r, callv (NSRUnlock bucket object) (RUnlock E bucket object) s2)))"

definition stat ::
  "('w, 'cc) env \<Rightarrow> diskCache \<Rightarrow> string \<Rightarrow> string \<Rightarrow> 'w state
     \<Rightarrow> (error + ObjectInfo) \<times> 'w state" where
  "stat E dcache bucket object s =
     (let (lerr, s1) = call (\<lambda>r. NSGetRLock bucket object (globalObjectTimeout E) (r = None))
                            (GetRLock E bucket object (globalObjectTimeout E)) s
      in case lerr of
           Some err \<Rightarrow> (Inl err, s1)
         | None \<Rightarrow>
             (let (r, s2) = call (\<lambda>_. CacheStat dcache bucket object)
                                 (dcStat E dcache bucket object) s1
              in (r, callv (NSRUnlock bucket object) (RUnlock E bucket object) s2)))"

subsection \<open>Admission\<close>

definition SlashSeparator :: string where
  "SlashSeparator = ''/''"

definition HasSuffix :: "string \<Rightarrow> string \<Rightarrow> bool" where
  "HasSuffix s suffix' =
     (length suffix' \<le> length s \<and> drop (length s - length suffix') s = suffix')"

fun isCacheExclude_loop :: "('w, 'cc) env \<Rightarrow> string list \<Rightarrow> string \<Rightarrow> string \<Rightarrow> bool" where
  "isCacheExclude_loop E [] bucket object = False"
| "isCacheExclude_loop E (pattern # ps) bucket object =
     (let matchStr = bucket @ ''/'' @ object in
      if MatchSimple E pattern matchStr then True
      else isCacheExclude_loop E ps bucket object)"

definition isCacheExclude ::
  "('w, 'cc) env \<Rightarrow> 'w cacheObjects \<Rightarrow> string \<Rightarrow> string \<Rightarrow> bool" where
  "isCacheExclude E c bucket object =
     (if HasSuffix object SlashSeparator then True
      else isCacheExclude_loop E (exclude c) bucket object)"

definition skipCache :: "'w cacheObjects \<Rightarrow> 'w state \<Rightarrow> bool \<times> 'w state" where
  "skipCache c s =
     (let s1 = logEv MigMutexLock s;
          r = migrating c
      in (r, logEv MigMutexUnlock s1))"

subsection \<open>Calls to the backend\<close>

definition callGetObjectNInfoFn ::
  "'w cacheObjects \<Rightarrow> string \<Rightarrow> string \<Rightarrow> HTTPRangeSpec option \<Rightarrow> Header \<Rightarrow> LockType
     \<Rightarrow> ObjectOptions \<Rightarrow> 'w state \<Rightarrow> (error + GetObjectReader) \<times> 'w state" where
  "callGetObjectNInfoFn c bucket object rs h lockType opts =
     call (\<lambda>_. BackendGetObjectNInfo bucket object rs)
          (GetObjectNInfoFn c bucket object rs h lockType opts)"

definition callGetObjectInfoFn ::
  "'w cacheObjects \<Rightarrow> string \<Rightarrow> string \<Rightarrow> ObjectOptions \<Rightarrow> 'w state
     \<Rightarrow> (error + ObjectInfo) \<times> 'w state" where
  "callGetObjectInfoFn c bucket object opts =
     call (\<lambda>_. BackendGetObjectInfo bucket object) (GetObjectInfoFn c bucket object opts)"

definition callDeleteObjectFn ::
  "'w cacheObjects \<Rightarrow> string \<Rightarrow> string \<Rightarrow> 'w state \<Rightarrow> error option \<times> 'w state" where
  "callDeleteObjectFn c bucket object =
     call (\<lambda>_. BackendDeleteObject bucket object) (DeleteObjectFn c bucket object)"

text \<open>
  Modelled from the spec: \<open>backendDownError\<close> is not among the source files; the
  spec names the error kind \<open>BackendDown\<close>. A nil error is not one.
\<close>

definition backendDownError :: "error option \<Rightarrow> bool" where
  "backendDownError err = (err = Some BackendDown)"

fun isObjectNotFound :: "error \<Rightarrow> bool" where
  "isObjectNotFound (ObjectNotFound bucket object) = True"
| "isObjectNotFound _ = False"

fun errOf :: "error + 'a \<Rightarrow> error option" where
  "errOf (Inl err) = Some err"
| "errOf (Inr v) = None"

subsection \<open>DeleteObject and DeleteObjects\<close>

definition DeleteObject ::
  "('w, 'cc) env \<Rightarrow> 'w cacheObjects \<Rightarrow> string \<Rightarrow> string \<Rightarrow> 'w state
     \<Rightarrow> error option \<times> 'w state" where
  "DeleteObject E c bucket object s =
     (let (err, s1) = callDeleteObjectFn c bucket object s in
      if err \<noteq> None then (err, s1)
      else if isCacheExclude E c bucket object then (err, s1)
      else
        let (skip, s2) = skipCache c s1 in
        if skip then (err, s2)
        else
          case getCacheLoc E c (world s2) bucket object of
            Inl cerr \<Rightarrow> (err, s2)
          | Inr dcache \<Rightarrow>
              if Exists E (world s2) dcache bucket object then
                (let (derr, s3) = delete E dcache bucket object s2 in (err, s3))
              else (err, s2))"

text \<open>\<open>errs[idx] = c.DeleteObject(ctx, bucket, object)\<close> for each \<open>idx, object\<close> in turn.\<close>

fun DeleteObjects_loop ::
  "('w, 'cc) env \<Rightarrow> 'w cacheObjects \<Rightarrow> string \<Rightarrow> error option list \<Rightarrow> (nat \<times> string) list
     \<Rightarrow> 'w state \<Rightarrow> error option list \<times> 'w state" where
  "DeleteObjects_loop E c bucket errs [] s = (errs, s)"
| "DeleteObjects_loop E c bucket errs ((idx, object) # rest) s =
     (let (r, s1) = DeleteObject E c bucket object s in
      DeleteObjects_loop E c bucket (errs[idx := r]) rest s1)"

definition DeleteObjects ::
  "('w, 'cc) env \<Rightarrow> 'w cacheObjects \<Rightarrow> string \<Rightarrow> string list \<Rightarrow> 'w state
     \<Rightarrow> (error option list \<times> error option) \<times> 'w state" where
  "DeleteObjects E c bucket objects s =
     (let errs = replicate (length objects) None;
          (errs', s') = DeleteObjects_loop E c bucket errs (enumerate 0 objects) s
      in ((errs', None), s'))"

subsection \<open>GetObjectNInfo\<close>

definition getMetadata :: "('w, 'cc) env \<Rightarrow> ObjectInfo \<Rightarrow> (string \<rightharpoonup> string)" where
  "getMetadata E objInfo =
     (let metadata = Map.empty;
          metadata = metadata(''etag'' \<mapsto> ETag objInfo);
          metadata = metadata(''content-type'' \<mapsto> ContentType objInfo);
          metadata = (if ContentEncoding objInfo \<noteq> []
                      then metadata(''content-encoding'' \<mapsto> ContentEncoding objInfo)
                      else metadata);
          metadata = (if Expires objInfo \<noteq> timeSentinel E
                      then metadata(''expires'' \<mapsto> formatHTTPTime E (Expires objInfo))
                      else metadata)
      in metadata ++ UserDefined objInfo)"

text \<open>
  The end of \<open>GetObjectNInfo\<close>, from "Since we got here, we are serving the
  request from backend": the purge signal (a non-blocking send, recorded as
  issued), the fallback when the drive has no room, the background fill of a
  range request, and the tee through a pipe into \<open>dcache.Put\<close>. The two
  goroutines are recorded as started; \<open>runTask\<close> is their body.
\<close>

definition GetObjectNInfo_fill ::
  "('w, 'cc) env \<Rightarrow> 'w cacheObjects \<Rightarrow> diskCache \<Rightarrow> string \<Rightarrow> string \<Rightarrow> HTTPRangeSpec option
     \<Rightarrow> Header \<Rightarrow> LockType \<Rightarrow> ObjectOptions \<Rightarrow> ObjectInfo \<Rightarrow> 'w state
     \<Rightarrow> (error + GetObjectReader) \<times> 'w state" where
  "GetObjectNInfo_fill E c dcache bucket object rs h lockType opts objInfo s =
     (let s1 = (if \<not> diskUsageLow E (world s) dcache then logEv (PurgeSignal dcache) s else s) in
      if \<not> diskAvailable E (world s1) dcache (Size objInfo) then
        callGetObjectNInfoFn c bucket object rs h lockType opts s1
      else if rs \<noteq> None then
        callGetObjectNInfoFn c bucket object rs h lockType opts
          (spawn (RangeFill dcache bucket object h lockType opts) s1)
      else
        let (bk, s2) = callGetObjectNInfoFn c bucket object rs h lockType opts s1 in
        case bk of
          Inl bkErr \<Rightarrow> (Inl bkErr, s2)
        | Inr bkReader \<Rightarrow>
            (let s3 = spawn (TeeFill dcache bucket object bkReader) s2;
                 (r, w) = NewGetObjectReaderFromReader E bkReader (ObjInfo bkReader) opts (world s3)
             in (r, s3\<lparr>world := w\<rparr>)))"

text \<open>
  The middle of \<open>GetObjectNInfo\<close>: the backend's \<open>GetObjectInfoFn\<close> is asked, and
  the cached copy (\<open>cacheRes\<close> is the pair \<open>cacheReader, cacheErr\<close>) is served,
  dropped or refreshed.
\<close>

definition GetObjectNInfo_revalidate ::
  "('w, 'cc) env \<Rightarrow> 'w cacheObjects \<Rightarrow> diskCache \<Rightarrow> string \<Rightarrow> string \<Rightarrow> HTTPRangeSpec option
     \<Rightarrow> Header \<Rightarrow> LockType \<Rightarrow> ObjectOptions \<Rightarrow> error + GetObjectReader \<Rightarrow> 'w state
     \<Rightarrow> (error + GetObjectReader) \<times> 'w state" where
  "GetObjectNInfo_revalidate E c dcache bucket object rs h lockType opts cacheRes s =
     (let (res, s2) = callGetObjectInfoFn c bucket object opts s in
      if backendDownError (errOf res) \<and> errOf cacheRes = None then (cacheRes, s2)
      else
        case res of
          Inl err \<Rightarrow>
            if isObjectNotFound err then
              (case cacheRes of
                 Inr cacheReader \<Rightarrow>
                   (let s3 = callv (ReaderClose cacheReader) (Close E cacheReader) s2;
                        (derr, s4) = call (\<lambda>_. CacheDelete dcache bucket object)
                                          (dcDelete E dcache bucket object) s3
                    in (Inl err, s4))
               | Inl cacheErr \<Rightarrow> (Inl err, s2))
            else (Inl err, s2)
        | Inr objInfo \<Rightarrow>
            if \<not> IsCacheable E objInfo then
              callGetObjectNInfoFn c bucket object rs h lockType opts s2
            else
              (case cacheRes of
                 Inr cacheReader \<Rightarrow>
                   (if ETag (ObjInfo cacheReader) = ETag objInfo then
                      (let (uerr, s3) =
                             call (\<lambda>_. CacheUpdateMetadata dcache bucket object objInfo
                                          (ObjInfo cacheReader))
                                  (updateMetadataIfChanged E dcache bucket object objInfo
                                          (ObjInfo cacheReader)) s2
                       in (Inr cacheReader, s3))
                    else
                      (let s3 = callv (ReaderClose cacheReader) (Close E cacheReader) s2;
                           (derr, s4) = delete E dcache bucket object s3
                       in GetObjectNInfo_fill E c dcache bucket object rs h lockType opts
                            objInfo s4))
               | Inl cacheErr \<Rightarrow>
                   GetObjectNInfo_fill E c dcache bucket object rs h lockType opts objInfo s2))"

definition GetObjectNInfo ::
  "('w, 'cc) env \<Rightarrow> 'w cacheObjects \<Rightarrow> string \<Rightarrow> string \<Rightarrow> HTTPRangeSpec option \<Rightarrow> Header
     \<Rightarrow> LockType \<Rightarrow> ObjectOptions \<Rightarrow> 'w state \<Rightarrow> (error + GetObjectReader) \<times> 'w state" where
  "GetObjectNInfo E c bucket object rs h lockType opts s =
     (if isCacheExclude E c bucket object then
        callGetObjectNInfoFn c bucket object rs h lockType opts s
      else
        let (skip, s0) = skipCache c s in
        if skip then callGetObjectNInfoFn c bucket object rs h lockType opts s0
        else
          case getCacheToLoc E c (world s0) bucket object of
            Inl err \<Rightarrow> callGetObjectNInfoFn c bucket object rs h lockType opts s0
          | Inr dcache \<Rightarrow>
              (let (cacheRes, s1) = get E dcache bucket object rs h opts s0 in
               case cacheRes of
                 Inr cacheReader \<Rightarrow>
                   (let cc = cacheControlOpts E (ObjInfo cacheReader) in
                    if \<not> isEmpty E cc \<and> \<not> isStale E (world s1) cc (ModTime (ObjInfo cacheReader))
                    then (Inr cacheReader, s1)
                    else GetObjectNInfo_revalidate E c dcache bucket object rs h lockType opts
                           cacheRes s1)
               | Inl cacheErr \<Rightarrow>
                   GetObjectNInfo_revalidate E c dcache bucket object rs h lockType opts
                     cacheRes s1))"

text \<open>
  The bodies of the two goroutines of \<open>GetObjectNInfo\<close>. The tee goroutine also
  closes the write end of the pipe with the error of \<open>Put\<close>; the pipe is not
  part of the model.
\<close>

fun runTask :: "('w, 'cc) env \<Rightarrow> 'w cacheObjects \<Rightarrow> task \<Rightarrow> 'w state \<Rightarrow> 'w state" where
  "runTask E c (RangeFill dcache bucket object h lockType opts) s =
     (let (b, s1) = callGetObjectNInfoFn c bucket object None h lockType opts s in
      case b of
        Inl bErr \<Rightarrow> s1
      | Inr bReader \<Rightarrow>
          (let (oi, s2) = stat E dcache bucket object s1;
               s3 = (if (case oi of Inl err \<Rightarrow> True
                                  | Inr oi' \<Rightarrow> ETag oi' \<noteq> ETag (ObjInfo bReader))
                     then snd (put E dcache bucket object bReader (Size (ObjInfo bReader))
                                 \<lparr>optUserDefined = getMetadata E (ObjInfo bReader)\<rparr> s2)
                     else s2)
           in callv (ReaderClose bReader) (Close E bReader) s3))"
| "runTask E c (TeeFill dcache bucket object bkReader) s =
     (let (putErr, s1) =
            call (\<lambda>_. CachePut dcache bucket object)
                 (dcPut E dcache bucket object bkReader (Size (ObjInfo bkReader))
                    \<lparr>optUserDefined = getMetadata E (ObjInfo bkReader)\<rparr>) s
      in s1)"

subsection \<open>GetObjectInfo\<close>

definition GetObjectInfo ::
  "('w, 'cc) env \<Rightarrow> 'w cacheObjects \<Rightarrow> string \<Rightarrow> string \<Rightarrow> ObjectOptions \<Rightarrow> 'w state
     \<Rightarrow> (error + ObjectInfo) \<times> 'w state" where
  "GetObjectInfo E c bucket object opts s =
     (if isCacheExclude E c bucket object then callGetObjectInfoFn c bucket object opts s
      else
        let (skip, s0) = skipCache c s in
        if skip then callGetObjectInfoFn c bucket object opts s0
        else
          case getCacheToLoc E c (world s0) bucket object of
            Inl err \<Rightarrow> callGetObjectInfoFn c bucket object opts s0
          | Inr dcache \<Rightarrow>
              (let (cres, s1) = stat E dcache bucket object s0 in
               if (case cres of
                     Inr cachedObjInfo \<Rightarrow>
                       (let cc = cacheControlOpts E cachedObjInfo in
                        \<not> isEmpty E cc \<and> \<not> isStale E (world s1) cc (ModTime cachedObjInfo))
                   | Inl cerr \<Rightarrow> False)
               then (cres, s1)
               else
                 let (res, s2) = callGetObjectInfoFn c bucket object opts s1 in
                 case res of
                   Inl err \<Rightarrow>
                     if isObjectNotFound err then
                       (let (derr, s3) = delete E dcache bucket object s2 in (Inl err, s3))
                     else if \<not> backendDownError (Some err) then (Inl err, s2)
                     else
                       (case cres of
                          Inr cachedObjInfo \<Rightarrow> (Inr cachedObjInfo, s2)
                        | Inl cerr \<Rightarrow> (Inl BackendDown, s2))
                 | Inr objInfo \<Rightarrow>
                     (case cres of
                        Inl cerr \<Rightarrow> (Inr objInfo, s2)
                      | Inr cachedObjInfo \<Rightarrow>
                          if ETag cachedObjInfo \<noteq> ETag objInfo then
                            (let (derr, s3) = delete E dcache bucket object s2
                             in (Inr objInfo, s3))
                          else (Inr objInfo, s2))))"

subsection \<open>Migration of the cache format\<close>

text \<open>
  \<open>migrateCacheFromV1toV2\<close> starts one goroutine per non-nil drive and waits for
  all of them. A goroutine runs \<open>migrateOldCache\<close> on its drive; on an error it
  stores the error at its own index of \<open>errs\<close>, otherwise it starts the drive's
  purge routine. Nothing orders the goroutines: the order in which they run is
  the schedule \<open>order\<close>, a list of slot indices, and a parameter of the model.
  Each goroutine is run to completion, and \<open>migrateOldCache\<close> is one step on the
  world. \<open>goroutines c order\<close> pairs each scheduled index with its slot, as the
  arguments \<open>idx\<close> and \<open>dc\<close> of the goroutine; a nil slot has no goroutine.
\<close>

definition goroutines :: "'w cacheObjects \<Rightarrow> nat list \<Rightarrow> (nat \<times> diskCache option) list" where
  "goroutines c order = map (\<lambda>idx. (idx, cache c ! idx)) order"

fun migrate_loop ::
  "('w, 'cc) env \<Rightarrow> error option list \<Rightarrow> (nat \<times> diskCache option) list \<Rightarrow> 'w state
     \<Rightarrow> error option list \<times> 'w state" where
  "migrate_loop E errs [] s = (errs, s)"
| "migrate_loop E errs ((idx, dc) # rest) s =
     (case dc of
        None \<Rightarrow> migrate_loop E errs rest s
      | Some d \<Rightarrow>
          (let (merr, s1) = call (\<lambda>_. MigrateOldCache d) (migrateOldCache E d) s in
           case merr of
             Some err \<Rightarrow> migrate_loop E (errs[idx := Some err]) rest s1
           | None \<Rightarrow> migrate_loop E errs rest (logEv (StartPurge d) s1)))"

fun countErrs :: "nat \<Rightarrow> error option list \<Rightarrow> nat" where
  "countErrs errCnt [] = errCnt"
| "countErrs errCnt (err # errs) =
     (if err \<noteq> None then countErrs (errCnt + 1) errs else countErrs errCnt errs)"

definition migrateCacheFromV1toV2 ::
  "('w, 'cc) env \<Rightarrow> 'w cacheObjects \<Rightarrow> nat list \<Rightarrow> 'w state \<Rightarrow> 'w cacheObjects \<times> 'w state" where
  "migrateCacheFromV1toV2 E c order s =
     (let errs = replicate (length (cache c)) None;
          (errs', s1) = migrate_loop E errs (goroutines c order) s;
          errCnt = countErrs 0 errs'
      in if errCnt > 0 then (c, s1)
         else
           let s2 = logEv MigMutexLock s1;
               c' = c\<lparr>migrating := False\<rparr>;
               s3 = logEv (SetMigrating False) s2
           in (c', logEv MigMutexUnlock s3))"

section \<open>Vocabulary of the properties\<close>

text \<open>A slot that is non-nil and online; a slot whose online drive holds the object.\<close>

definition slotOnline :: "('w, 'cc) env \<Rightarrow> 'w \<Rightarrow> diskCache option list \<Rightarrow> nat \<Rightarrow> bool" where
  "slotOnline E w cs i = (case cs ! i of None \<Rightarrow> False | Some d \<Rightarrow> IsOnline E w d)"

definition slotHolds ::
  "('w, 'cc) env \<Rightarrow> 'w \<Rightarrow> diskCache option list \<Rightarrow> string \<Rightarrow> string \<Rightarrow> nat \<Rightarrow> bool" where
  "slotHolds E w cs bucket object i =
     (case cs ! i of
        None \<Rightarrow> False
      | Some d \<Rightarrow> IsOnline E w d \<and> Exists E w d bucket object)"

text \<open>Classes of events: calls to the backend, and reads and writes of a cache drive.\<close>

fun isBackendCall :: "event \<Rightarrow> bool" where
  "isBackendCall (BackendGetObjectNInfo bucket object rs) = True"
| "isBackendCall (BackendGetObjectInfo bucket object) = True"
| "isBackendCall (BackendDeleteObject bucket object) = True"
| "isBackendCall _ = False"

fun isCacheOp :: "event \<Rightarrow> bool" where
  "isCacheOp (CacheGet d bucket object) = True"
| "isCacheOp (CacheStat d bucket object) = True"
| "isCacheOp (CachePut d bucket object) = True"
| "isCacheOp (CacheDelete d bucket object) = True"
| "isCacheOp (CacheUpdateMetadata d bucket object new old) = True"
| "isCacheOp _ = False"

fun isMigrate :: "event \<Rightarrow> bool" where
  "isMigrate (MigrateOldCache d) = True"
| "isMigrate _ = False"

text \<open>
  The cache-control test of both read operations: the entry is served without
  asking the backend when its cache-control is not empty and not stale.
\<close>

definition fresh :: "('w, 'cc) env \<Rightarrow> 'w \<Rightarrow> ObjectInfo \<Rightarrow> bool" where
  "fresh E w oi =
     (\<not> isEmpty E (cacheControlOpts E oi) \<and> \<not> isStale E w (cacheControlOpts E oi) (ModTime oi))"

text \<open>
  Lock framing of a trace. \<open>held\<close> lists the locks held so far as
  \<open>(bucket, object, exclusive)\<close>. Every lock is asked for with the timeout
  \<open>tmo\<close>; a \<open>Get\<close> or \<open>Stat\<close> of a drive happens while exactly one lock of its
  \<open>(bucket, object)\<close> is held, a read lock; a \<open>Put\<close> or \<open>Delete\<close> while exactly
  one is held, an exclusive lock; and at the end no lock is held.
\<close>

definition locksOn :: "string \<Rightarrow> string \<Rightarrow> (string \<times> string \<times> bool) list
    \<Rightarrow> (string \<times> string \<times> bool) list" where
  "locksOn bucket object held = filter (\<lambda>l. fst l = bucket \<and> fst (snd l) = object) held"

fun lockFramed :: "nat \<Rightarrow> (string \<times> string \<times> bool) list \<Rightarrow> event list \<Rightarrow> bool" where
  "lockFramed tmo held [] = (held = [])"
| "lockFramed tmo held (NSGetLock bucket object t ok # evs) =
     (t = tmo \<and> lockFramed tmo (if ok then (bucket, object, True) # held else held) evs)"
| "lockFramed tmo held (NSGetRLock bucket object t ok # evs) =
     (t = tmo \<and> lockFramed tmo (if ok then (bucket, object, False) # held else held) evs)"
| "lockFramed tmo held (NSUnlock bucket object # evs) =
     ((bucket, object, True) \<in> set held
      \<and> lockFramed tmo (remove1 (bucket, object, True) held) evs)"
| "lockFramed tmo held (NSRUnlock bucket object # evs) =
     ((bucket, object, False) \<in> set held
      \<and> lockFramed tmo (remove1 (bucket, object, False) held) evs)"
| "lockFramed tmo held (CacheGet d bucket object # evs) =
     (locksOn bucket object held = [(bucket, object, False)] \<and> lockFramed tmo held evs)"
| "lockFramed tmo held (CacheStat d bucket object # evs) =
     (locksOn bucket object held = [(bucket, object, False)] \<and> lockFramed tmo held evs)"
| "lockFramed tmo held (CachePut d bucket object # evs) =
     (locksOn bucket object held = [(bucket, object, True)] \<and> lockFramed tmo held evs)"
| "lockFramed tmo held (CacheDelete d bucket object # evs) =
     (locksOn bucket object held = [(bucket, object, True)] \<and> lockFramed tmo held evs)"
| "lockFramed tmo held (ev # evs) = lockFramed tmo held evs"

text \<open>
  The drives of the non-nil slots. A schedule is valid when it runs the
  goroutine of every slot once. \<open>migrationErrors\<close> is the error slice that
  \<open>migrateCacheFromV1toV2\<close> holds after \<open>wg.Wait()\<close>, and \<open>migrationResult\<close> is what
  \<open>migrateOldCache\<close> returned to the \<open>k\<close>-th goroutine of the schedule, in the
  world \<open>migratedWorld\<close> that the migrations of the goroutines before it left
  (nil for a nil slot, which has none). The events on the \<open>migrating\<close> flag are
  those of its mutex and the store.
\<close>

fun nonNil :: "diskCache option list \<Rightarrow> diskCache list" where
  "nonNil [] = []"
| "nonNil (None # cs) = nonNil cs"
| "nonNil (Some d # cs) = d # nonNil cs"

definition validSchedule :: "'w cacheObjects \<Rightarrow> nat list \<Rightarrow> bool" where
  "validSchedule c order = (sort order = [0..<length (cache c)])"

definition migrationErrors ::
  "('w, 'cc) env \<Rightarrow> 'w cacheObjects \<Rightarrow> nat list \<Rightarrow> 'w state \<Rightarrow> error option list" where
  "migrationErrors E c order s =
     fst (migrate_loop E (replicate (length (cache c)) None) (goroutines c order) s)"

fun migratedWorld :: "('w, 'cc) env \<Rightarrow> diskCache option list \<Rightarrow> 'w \<Rightarrow> 'w" where
  "migratedWorld E [] w = w"
| "migratedWorld E (None # ds) w = migratedWorld E ds w"
| "migratedWorld E (Some d # ds) w = migratedWorld E ds (snd (migrateOldCache E d w))"

definition migrationResult ::
  "('w, 'cc) env \<Rightarrow> 'w cacheObjects \<Rightarrow> nat list \<Rightarrow> 'w state \<Rightarrow> nat \<Rightarrow> error option" where
  "migrationResult E c order s k =
     (case cache c ! (order ! k) of
        None \<Rightarrow> None
      | Some d \<Rightarrow>
          fst (migrateOldCache E d
                 (migratedWorld E (map (\<lambda>idx. cache c ! idx) (take k order)) (world s))))"

definition noError :: "error option list \<Rightarrow> bool" where
  "noError errs = list_all (\<lambda>err. err = None) errs"

fun isFlagEvent :: "event \<Rightarrow> bool" where
  "isFlagEvent MigMutexLock = True"
| "isFlagEvent MigMutexUnlock = True"
| "isFlagEvent (SetMigrating b) = True"
| "isFlagEvent _ = False"

section \<open>A concrete deployment\<close>

text \<open>
  Four slots, the second empty and the third offline; the object \<open>b/obj\<close> is
  cached on the first drive with a cache-control that is still valid, and the
  backend holds the same object. The hash of \<open>b/obj\<close> points at the second
  slot. Variations of this deployment are record updates of it.
\<close>

definition exInfo :: ObjectInfo where
  "exInfo = \<lparr>ETag = ''A'', ModTime = Time 100 ''UTC'', Size = 4096, ContentType = ''text/plain'',
             ContentEncoding = [], Expires = Time 0 ''UTC'',
             UserDefined = [''cache-control'' \<mapsto> ''max-age=3600'']\<rparr>"

definition exStaleInfo :: ObjectInfo where
  "exStaleInfo = exInfo\<lparr>UserDefined := [''cache-control'' \<mapsto> ''max-age=0'']\<rparr>"

definition exReader :: GetObjectReader where
  "exReader = \<lparr>ObjInfo = exInfo, stream = 1\<rparr>"

definition exStaleReader :: GetObjectReader where
  "exStaleReader = \<lparr>ObjInfo = exStaleInfo, stream = 1\<rparr>"

definition exBackendReader :: GetObjectReader where
  "exBackendReader = \<lparr>ObjInfo = exInfo, stream = 2\<rparr>"

definition exOpts :: ObjectOptions where
  "exOpts = \<lparr>optUserDefined = Map.empty\<rparr>"

definition exEnv :: "(unit, string option) env" where
  "exEnv =
     \<lparr>crc32Checksum = (\<lambda>key. of_nat (length key)),
      MatchSimple = (\<lambda>pattern name. pattern = name),
      globalObjectTimeout = 60,
      timeSentinel = Time 0 ''UTC'',
      formatHTTPTime = (\<lambda>t. []),
      cacheControlOpts = (\<lambda>oi. UserDefined oi ''cache-control''),
      isEmpty = (\<lambda>cc. cc = None),
      isStale = (\<lambda>w cc modTime. cc = Some ''max-age=0''),
      IsCacheable = (\<lambda>oi. True),
      IsOnline = (\<lambda>w d. dir d \<noteq> ''/mnt/cache3''),
      Exists = (\<lambda>w d bucket object.
                  dir d = ''/mnt/cache1'' \<and> bucket = ''b'' \<and> object = ''obj''),
      diskUsageLow = (\<lambda>w d. True),
      diskAvailable = (\<lambda>w d n. True),
      dcGet = (\<lambda>d bucket object rs h opts w. (Inr exReader, w)),
      dcStat = (\<lambda>d bucket object w. (Inr exInfo, w)),
      dcPut = (\<lambda>d bucket object data n opts w. (None, w)),
      dcDelete = (\<lambda>d bucket object w. (None, w)),
      updateMetadataIfChanged = (\<lambda>d bucket object new old w. (None, w)),
      GetLock = (\<lambda>bucket object t w. (None, w)),
      Unlock = (\<lambda>bucket object w. w),
      GetRLock = (\<lambda>bucket object t w. (None, w)),
      RUnlock = (\<lambda>bucket object w. w),
      Close = (\<lambda>r w. w),
      NewGetObjectReaderFromReader = (\<lambda>r oi opts w. (Inr (r\<lparr>ObjInfo := oi\<rparr>), w)),
      migrateOldCache = (\<lambda>d w. (None, w))\<rparr>"

definition exCache :: "unit cacheObjects" where
  "exCache =
     \<lparr>cache = [Some (DiskCache ''/mnt/cache1''), None,
               Some (DiskCache ''/mnt/cache3''), Some (DiskCache ''/mnt/cache4'')],
      exclude = [''b/secret''],
      migrating = False,
      GetObjectNInfoFn = (\<lambda>bucket object rs h lockType opts w. (Inr exBackendReader, w)),
      GetObjectInfoFn = (\<lambda>bucket object opts w. (Inr exInfo, w)),
      DeleteObjectFn = (\<lambda>bucket object w. (None, w)),
      DeleteObjectsFn = (\<lambda>bucket objects w. ((map (\<lambda>x. None) objects, None), w))\<rparr>"

definition exState :: "unit state" where
  "exState = \<lparr>world = (), trace = [], tasks = []\<rparr>"

text \<open>The cached entry has outlived its cache-control.\<close>

definition exStaleEnv :: "(unit, string option) env" where
  "exStaleEnv =
     exEnv\<lparr>dcGet := (\<lambda>d bucket object rs h opts w. (Inr exStaleReader, w)),
           dcStat := (\<lambda>d bucket object w. (Inr exStaleInfo, w))\<rparr>"

text \<open>The drive holds the entry but cannot serve the requested range.\<close>

definition exRangeEnv :: "(unit, string option) env" where
  "exRangeEnv =
     exEnv\<lparr>dcGet := (\<lambda>d bucket object rs h opts w. (Inl (OtherError ''invalid range''), w))\<rparr>"

text \<open>The drive has no readable entry.\<close>

definition exMissEnv :: "(unit, string option) env" where
  "exMissEnv =
     exEnv\<lparr>dcGet := (\<lambda>d bucket object rs h opts w. (Inl (ObjectNotFound bucket object), w)),
           dcStat := (\<lambda>d bucket object w. (Inl (ObjectNotFound bucket object), w))\<rparr>"

text \<open>The exclusive lock is not granted in time.\<close>

definition exBusyEnv :: "(unit, string option) env" where
  "exBusyEnv = exStaleEnv\<lparr>GetLock := (\<lambda>bucket object t w. (Some OperationTimedOut, w))\<rparr>"

text \<open>The backend has lost the object; the backend is down; the backend refuses deletes.\<close>

definition exGoneCache :: "unit cacheObjects" where
  "exGoneCache =
     exCache\<lparr>GetObjectInfoFn := (\<lambda>bucket object opts w. (Inl (ObjectNotFound bucket object), w)),
             GetObjectNInfoFn :=
               (\<lambda>bucket object rs h lockType opts w. (Inl (ObjectNotFound bucket object), w))\<rparr>"

definition exDownCache :: "unit cacheObjects" where
  "exDownCache =
     exCache\<lparr>GetObjectInfoFn := (\<lambda>bucket object opts w. (Inl BackendDown, w)),
             GetObjectNInfoFn := (\<lambda>bucket object rs h lockType opts w. (Inl BackendDown, w))\<rparr>"

definition exDenyCache :: "unit cacheObjects" where
  "exDenyCache =
     exCache\<lparr>DeleteObjectFn := (\<lambda>bucket object w. (Some (OtherError ''access denied''), w))\<rparr>"

text \<open>A migration in which the first drive fails.\<close>

definition exMigEnv :: "(unit, string option) env" where
  "exMigEnv =
     exEnv\<lparr>migrateOldCache :=
             (\<lambda>d w. (if dir d = ''/mnt/cache1'' then Some (OtherError ''rename failed'')
                      else None, w))\<rparr>"

definition exMigCache :: "unit cacheObjects" where
  "exMigCache = exCache\<lparr>migrating := True\<rparr>"


text \<open>
  The same deployment with a stale entry, over a world that keeps what the
  drive has been told: the list of the metadata updates applied to it, each
  with its new and its old \<open>ObjectInfo\<close>.
\<close>

definition exMetaEnv :: "((ObjectInfo \<times> ObjectInfo) list, string option) env" where
  "exMetaEnv =
     \<lparr>crc32Checksum = (\<lambda>key. of_nat (length key)),
      MatchSimple = (\<lambda>pattern name. pattern = name),
      globalObjectTimeout = 60,
      timeSentinel = Time 0 ''UTC'',
      formatHTTPTime = (\<lambda>t. []),
      cacheControlOpts = (\<lambda>oi. UserDefined oi ''cache-control''),
      isEmpty = (\<lambda>cc. cc = None),
      isStale = (\<lambda>w cc modTime. cc = Some ''max-age=0''),
      IsCacheable = (\<lambda>oi. True),
      IsOnline = (\<lambda>w d. dir d \<noteq> ''/mnt/cache3''),
      Exists = (\<lambda>w d bucket object.
                  dir d = ''/mnt/cache1'' \<and> bucket = ''b'' \<and> object = ''obj''),
      diskUsageLow = (\<lambda>w d. True),
      diskAvailable = (\<lambda>w d n. True),
      dcGet = (\<lambda>d bucket object rs h opts w. (Inr exStaleReader, w)),
      dcStat = (\<lambda>d bucket object w. (Inr exStaleInfo, w)),
      dcPut = (\<lambda>d bucket object data n opts w. (None, w)),
      dcDelete = (\<lambda>d bucket object w. (None, w)),
      updateMetadataIfChanged = (\<lambda>d bucket object new old w. (None, w @ [(new, old)])),
      GetLock = (\<lambda>bucket object t w. (None, w)),
      Unlock = (\<lambda>bucket object w. w),
      GetRLock = (\<lambda>bucket object t w. (None, w)),
      RUnlock = (\<lambda>bucket object w. w),
      Close = (\<lambda>r w. w),
      NewGetObjectReaderFromReader = (\<lambda>r oi opts w. (Inr (r\<lparr>ObjInfo := oi\<rparr>), w)),
      migrateOldCache = (\<lambda>d w. (None, w))\<rparr>"

definition exMetaCache :: "(ObjectInfo \<times> ObjectInfo) list cacheObjects" where
  "exMetaCache =
     \<lparr>cache = [Some (DiskCache ''/mnt/cache1''), None,
               Some (DiskCache ''/mnt/cache3''), Some (DiskCache ''/mnt/cache4'')],
      exclude = [''b/secret''],
      migrating = False,
      GetObjectNInfoFn = (\<lambda>bucket object rs h lockType opts w. (Inr exBackendReader, w)),
      GetObjectInfoFn = (\<lambda>bucket object opts w. (Inr exInfo, w)),
      DeleteObjectFn = (\<lambda>bucket object w. (None, w)),
      DeleteObjectsFn = (\<lambda>bucket objects w. ((map (\<lambda>x. None) objects, None), w))\<rparr>"

definition exMetaState :: "(ObjectInfo \<times> ObjectInfo) list state" where
  "exMetaState = \<lparr>world = [], trace = [], tasks = []\<rparr>"

section \<open>Properties\<close>

subsection \<open>The router\<close>

lemma getCacheLoc_loop_find:
  "getCacheLoc_loop E w cs index ks =
     (case find (\<lambda>k. slotOnline E w cs ((index + k) mod length cs)) ks of
        None \<Rightarrow> Inl errDiskNotFound
      | Some k \<Rightarrow> Inr (the (cs ! ((index + k) mod length cs))))"
  by (induction ks) (auto simp: slotOnline_def Let_def split: option.splits)

lemma circular_scan_covers:
  assumes "i < (N::nat)"
  shows "\<exists>k<N. (index + k) mod N = i"
proof -
  define r where "r = index mod N"
  define k where "k = (i + (N - r)) mod N"
  have rN: "r < N" using assms by (simp add: r_def)
  have kN: "k < N" using assms by (simp add: k_def)
  have "(index + k) mod N = (r + (i + (N - r))) mod N"
    unfolding k_def r_def by (simp add: mod_add_eq mod_add_right_eq mod_add_left_eq)
  also have "r + (i + (N - r)) = i + N" using rN by simp
  also have "(i + N) mod N = i" using assms by simp
  finally show ?thesis using kN by blast
qed

lemma find_upt_first:
  assumes "k < N" "P k" "\<forall>j<k. \<not> P j"
  shows "find P [0..<N] = Some k"
  using assms by (auto simp: find_Some_iff intro!: exI[of _ k])

lemma find_upt_none: "find P [0..<N] = None \<longleftrightarrow> (\<forall>k<N. \<not> P k)"
  by (auto simp: find_None_iff)


lemma getCacheToLoc_loop_find:
  "getCacheToLoc_loop E w cs bucket object index f ks =
     (case find (\<lambda>k. slotHolds E w cs bucket object ((index + k) mod length cs)) ks of
        Some k \<Rightarrow> Inr (the (cs ! ((index + k) mod length cs)))
      | None \<Rightarrow>
          (case f of
             Some d \<Rightarrow> Inr d
           | None \<Rightarrow>
               (case find (\<lambda>k. slotOnline E w cs ((index + k) mod length cs)) ks of
                  None \<Rightarrow> Inl errDiskNotFound
                | Some k \<Rightarrow> Inr (the (cs ! ((index + k) mod length cs))))))"
  by (induction ks arbitrary: f)
     (auto simp: slotOnline_def slotHolds_def Let_def split: option.splits)

lemma slot_in_range: "i < length (cs::'a list) \<Longrightarrow> (index + k) mod length cs < length cs"
  by (cases cs) simp_all

text \<open>
  Claim C6. \<open>getCacheLoc\<close> depends on the world only through the online states
  of the drives. With \<open>index\<close> the CRC-32 of \<open>bucket/object\<close> modulo the number of
  slots, it returns the drive of the first slot \<open>index, index + 1, ...\<close> (modulo
  the number of slots) that is non-nil and online, and it returns
  \<open>errDiskNotFound\<close> exactly when no slot is non-nil and online.
\<close>

theorem getCacheLoc_first_online:
  "hashIndex E c bucket object
     = unat (crc32Checksum E (bucket @ ''/'' @ object)) mod length (cache c)
   \<and> (\<forall>k d. k < length (cache c)
          \<and> cache c ! ((hashIndex E c bucket object + k) mod length (cache c)) = Some d
          \<and> IsOnline E w d
          \<and> (\<forall>j<k. \<not> slotOnline E w (cache c)
                        ((hashIndex E c bucket object + j) mod length (cache c)))
        \<longrightarrow> getCacheLoc E c w bucket object = Inr d)
   \<and> ((\<forall>i<length (cache c). \<not> slotOnline E w (cache c) i)
        \<longleftrightarrow> getCacheLoc E c w bucket object = Inl errDiskNotFound)
   \<and> (\<forall>e. getCacheLoc E c w bucket object = Inl e \<longrightarrow> e = errDiskNotFound)
   \<and> (\<forall>w'. (\<forall>d. IsOnline E w' d = IsOnline E w d)
        \<longrightarrow> getCacheLoc E c w' bucket object = getCacheLoc E c w bucket object)"
proof (intro conjI allI impI)
  show "hashIndex E c bucket object
     = unat (crc32Checksum E (bucket @ ''/'' @ object)) mod length (cache c)"
    by (simp add: hashIndex_def crcHashMod_def pathJoin_def)
next
  fix k d
  assume a: "k < length (cache c)
          \<and> cache c ! ((hashIndex E c bucket object + k) mod length (cache c)) = Some d
          \<and> IsOnline E w d
          \<and> (\<forall>j<k. \<not> slotOnline E w (cache c)
                        ((hashIndex E c bucket object + j) mod length (cache c)))"
  let ?P = "\<lambda>k. slotOnline E w (cache c) ((hashIndex E c bucket object + k) mod length (cache c))"
  have "?P k" using a by (simp add: slotOnline_def)
  with a have "find ?P [0..<length (cache c)] = Some k"
    by (intro find_upt_first) auto
  then show "getCacheLoc E c w bucket object = Inr d"
    using a by (simp add: getCacheLoc_def getCacheLoc_loop_find)
next
  let ?P = "\<lambda>k. slotOnline E w (cache c) ((hashIndex E c bucket object + k) mod length (cache c))"
  have res: "getCacheLoc E c w bucket object =
     (case find ?P [0..<length (cache c)] of
        None \<Rightarrow> Inl errDiskNotFound
      | Some k \<Rightarrow> Inr (the (cache c ! ((hashIndex E c bucket object + k) mod length (cache c)))))"
    by (simp add: getCacheLoc_def getCacheLoc_loop_find Let_def)
  have cover: "(\<forall>k<length (cache c). \<not> ?P k) \<longleftrightarrow> (\<forall>i<length (cache c). \<not> slotOnline E w (cache c) i)"
  proof
    assume h: "\<forall>k<length (cache c). \<not> ?P k"
    show "\<forall>i<length (cache c). \<not> slotOnline E w (cache c) i"
    proof (intro allI impI)
      fix i assume "i < length (cache c)"
      then obtain k where "k < length (cache c)"
        "(hashIndex E c bucket object + k) mod length (cache c) = i"
        using circular_scan_covers by blast
      with h show "\<not> slotOnline E w (cache c) i" by auto
    qed
  next
    assume h: "\<forall>i<length (cache c). \<not> slotOnline E w (cache c) i"
    show "\<forall>k<length (cache c). \<not> ?P k"
    proof (intro allI impI)
      fix k assume "k < length (cache c)"
      then have "(hashIndex E c bucket object + k) mod length (cache c) < length (cache c)"
        by (rule slot_in_range)
      with h show "\<not> ?P k" by blast
    qed
  qed
  show "(\<forall>i<length (cache c). \<not> slotOnline E w (cache c) i)
        \<longleftrightarrow> getCacheLoc E c w bucket object = Inl errDiskNotFound"
    unfolding res cover[symmetric] find_upt_none[symmetric]
    by (simp split: option.splits)
  fix e
  assume "getCacheLoc E c w bucket object = Inl e"
  then show "e = errDiskNotFound"
    unfolding res by (simp split: option.splits)
next
  fix w'
  assume h: "\<forall>d. IsOnline E w' d = IsOnline E w d"
  then have "slotOnline E w' = slotOnline E w"
    by (intro ext) (simp add: slotOnline_def split: option.splits)
  then show "getCacheLoc E c w' bucket object = getCacheLoc E c w bucket object"
    by (simp add: getCacheLoc_def getCacheLoc_loop_find Let_def)
qed


lemma circular_scan_all:
  "(\<forall>k<N. \<not> P ((index + k) mod N)) \<longleftrightarrow> (\<forall>i<(N::nat). \<not> P i)"
proof
  assume h: "\<forall>k<N. \<not> P ((index + k) mod N)"
  show "\<forall>i<N. \<not> P i"
  proof (intro allI impI)
    fix i assume "i < N"
    then obtain k where "k < N" "(index + k) mod N = i"
      using circular_scan_covers by blast
    with h show "\<not> P i" by auto
  qed
next
  assume h: "\<forall>i<N. \<not> P i"
  show "\<forall>k<N. \<not> P ((index + k) mod N)"
  proof (intro allI impI)
    fix k assume "k < N"
    then have "(index + k) mod N < N" by (cases N) simp_all
    with h show "\<not> P ((index + k) mod N)" by blast
  qed
qed

theorem getCacheLoc_first_online_witness:
  "hashIndex exEnv exCache ''b'' ''obj'' = 1
   \<and> getCacheLoc exEnv exCache () ''b'' ''obj'' = Inr (DiskCache ''/mnt/cache4'')
   \<and> getCacheLoc exEnv (exCache\<lparr>cache := [None, Some (DiskCache ''/mnt/cache3'')]\<rparr>) () ''b'' ''obj''
       = Inl errDiskNotFound"
proof -
  have idx: "hashIndex exEnv exCache ''b'' ''obj'' = 1"
    using getCacheLoc_first_online [of exEnv exCache "''b''" "''obj''" "()"]
    by (simp add: exEnv_def exCache_def)
  have "2 < length (cache exCache)
          \<and> cache exCache ! ((hashIndex exEnv exCache ''b'' ''obj'' + 2) mod length (cache exCache))
              = Some (DiskCache ''/mnt/cache4'')
          \<and> IsOnline exEnv () (DiskCache ''/mnt/cache4'')
          \<and> (\<forall>j<2. \<not> slotOnline exEnv () (cache exCache)
                        ((hashIndex exEnv exCache ''b'' ''obj'' + j) mod length (cache exCache)))"
    unfolding idx by (simp add: exEnv_def exCache_def slotOnline_def less_Suc_eq numeral_2_eq_2)
  then have loc: "getCacheLoc exEnv exCache () ''b'' ''obj'' = Inr (DiskCache ''/mnt/cache4'')"
    using getCacheLoc_first_online [of exEnv exCache "''b''" "''obj''" "()"] by blast
  let ?c = "exCache\<lparr>cache := [None, Some (DiskCache ''/mnt/cache3'')]\<rparr>"
  have "\<forall>i<length (cache ?c). \<not> slotOnline exEnv () (cache ?c) i"
    by (simp add: exEnv_def exCache_def slotOnline_def less_Suc_eq numeral_2_eq_2)
  then have none: "getCacheLoc exEnv ?c () ''b'' ''obj'' = Inl errDiskNotFound"
    using getCacheLoc_first_online [of exEnv ?c "''b''" "''obj''" "()"] by blast
  show ?thesis using idx loc none by simp
qed

text \<open>
  Claim C7. \<open>getCacheToLoc\<close> walks the slots circularly from the hash index. It
  returns the first online drive on which the object exists; when no online
  drive holds the object, the first online drive of the walk; and
  \<open>errDiskNotFound\<close> exactly when no slot is non-nil and online.
\<close>

theorem getCacheToLoc_affinity:
  "(\<forall>k d. k < length (cache c)
          \<and> cache c ! ((hashIndex E c bucket object + k) mod length (cache c)) = Some d
          \<and> IsOnline E w d \<and> Exists E w d bucket object
          \<and> (\<forall>j<k. \<not> slotHolds E w (cache c) bucket object
                        ((hashIndex E c bucket object + j) mod length (cache c)))
        \<longrightarrow> getCacheToLoc E c w bucket object = Inr d)
   \<and> (\<forall>k d. (\<forall>i<length (cache c). \<not> slotHolds E w (cache c) bucket object i)
          \<and> k < length (cache c)
          \<and> cache c ! ((hashIndex E c bucket object + k) mod length (cache c)) = Some d
          \<and> IsOnline E w d
          \<and> (\<forall>j<k. \<not> slotOnline E w (cache c)
                        ((hashIndex E c bucket object + j) mod length (cache c)))
        \<longrightarrow> getCacheToLoc E c w bucket object = Inr d)
   \<and> ((\<forall>i<length (cache c). \<not> slotOnline E w (cache c) i)
        \<longleftrightarrow> getCacheToLoc E c w bucket object = Inl errDiskNotFound)
   \<and> (\<forall>e. getCacheToLoc E c w bucket object = Inl e \<longrightarrow> e = errDiskNotFound)"
proof -
  let ?N = "length (cache c)"
  let ?slot = "\<lambda>k. (hashIndex E c bucket object + k) mod ?N"
  let ?H = "\<lambda>k. slotHolds E w (cache c) bucket object (?slot k)"
  let ?O = "\<lambda>k. slotOnline E w (cache c) (?slot k)"
  have res: "getCacheToLoc E c w bucket object =
     (case find ?H [0..<?N] of
        Some k \<Rightarrow> Inr (the (cache c ! ?slot k))
      | None \<Rightarrow>
          (case find ?O [0..<?N] of
             None \<Rightarrow> Inl errDiskNotFound
           | Some k \<Rightarrow> Inr (the (cache c ! ?slot k))))"
    by (simp add: getCacheToLoc_def getCacheToLoc_loop_find Let_def split: option.splits)
  have holds_online: "slotHolds E w (cache c) bucket object i \<Longrightarrow> slotOnline E w (cache c) i" for i
    by (simp add: slotHolds_def slotOnline_def split: option.splits)
  have p1: "getCacheToLoc E c w bucket object = Inr d"
    if a: "k < ?N \<and> cache c ! ?slot k = Some d \<and> IsOnline E w d \<and> Exists E w d bucket object
          \<and> (\<forall>j<k. \<not> ?H j)" for k d
  proof -
    have "?H k" using a by (simp add: slotHolds_def)
    with a have "find ?H [0..<?N] = Some k" by (intro find_upt_first) auto
    then show ?thesis using a by (simp add: res)
  qed
  have p2: "getCacheToLoc E c w bucket object = Inr d"
    if a: "(\<forall>i<?N. \<not> slotHolds E w (cache c) bucket object i) \<and> k < ?N
          \<and> cache c ! ?slot k = Some d \<and> IsOnline E w d \<and> (\<forall>j<k. \<not> ?O j)" for k d
  proof -
    have "\<forall>k<?N. \<not> ?H k" using a circular_scan_all[of ?N "slotHolds E w (cache c) bucket object"] by simp
    then have n: "find ?H [0..<?N] = None" by (simp add: find_upt_none)
    have "?O k" using a by (simp add: slotOnline_def)
    with a have "find ?O [0..<?N] = Some k" by (intro find_upt_first) auto
    then show ?thesis using a n by (simp add: res)
  qed
  have p3: "(\<forall>i<?N. \<not> slotOnline E w (cache c) i)
        \<longleftrightarrow> getCacheToLoc E c w bucket object = Inl errDiskNotFound"
  proof
    assume h: "\<forall>i<?N. \<not> slotOnline E w (cache c) i"
    then have "\<forall>i<?N. \<not> slotHolds E w (cache c) bucket object i" using holds_online by blast
    then have "\<forall>k<?N. \<not> ?H k" using circular_scan_all[of ?N "slotHolds E w (cache c) bucket object"] by simp
    then have n: "find ?H [0..<?N] = None" by (simp add: find_upt_none)
    from h have "\<forall>k<?N. \<not> ?O k" using circular_scan_all[of ?N "slotOnline E w (cache c)"] by simp
    then have "find ?O [0..<?N] = None" by (simp add: find_upt_none)
    with n show "getCacheToLoc E c w bucket object = Inl errDiskNotFound" by (simp add: res)
  next
    assume "getCacheToLoc E c w bucket object = Inl errDiskNotFound"
    then have "find ?O [0..<?N] = None" unfolding res by (simp split: option.splits)
    then have "\<forall>k<?N. \<not> ?O k" by (simp add: find_upt_none)
    then show "\<forall>i<?N. \<not> slotOnline E w (cache c) i"
      using circular_scan_all[of ?N "slotOnline E w (cache c)"] by simp
  qed
  have p4: "e = errDiskNotFound" if "getCacheToLoc E c w bucket object = Inl e" for e
    using that unfolding res by (simp split: option.splits)
  show ?thesis
  proof (intro conjI allI impI)
    fix k d
    assume "k < ?N \<and> cache c ! ?slot k = Some d \<and> IsOnline E w d \<and> Exists E w d bucket object
          \<and> (\<forall>j<k. \<not> ?H j)"
    then show "getCacheToLoc E c w bucket object = Inr d" by (rule p1)
  next
    fix k d
    assume "(\<forall>i<?N. \<not> slotHolds E w (cache c) bucket object i) \<and> k < ?N
          \<and> cache c ! ?slot k = Some d \<and> IsOnline E w d \<and> (\<forall>j<k. \<not> ?O j)"
    then show "getCacheToLoc E c w bucket object = Inr d" by (rule p2)
  next
    show "(\<forall>i<?N. \<not> slotOnline E w (cache c) i)
        \<longleftrightarrow> getCacheToLoc E c w bucket object = Inl errDiskNotFound" by (rule p3)
  next
    fix e assume "getCacheToLoc E c w bucket object = Inl e"
    then show "e = errDiskNotFound" by (rule p4)
  qed
qed

theorem getCacheToLoc_affinity_witness:
  "getCacheToLoc exEnv exCache () ''b'' ''obj'' = Inr (DiskCache ''/mnt/cache1'')
   \<and> getCacheToLoc exEnv exCache () ''b'' ''new'' = Inr (DiskCache ''/mnt/cache4'')
   \<and> getCacheToLoc exEnv (exCache\<lparr>cache := [None, Some (DiskCache ''/mnt/cache3'')]\<rparr>) () ''b'' ''obj''
       = Inl errDiskNotFound"
proof -
  have idx: "hashIndex exEnv exCache ''b'' ''obj'' = 1" "hashIndex exEnv exCache ''b'' ''new'' = 1"
    by (simp_all add: hashIndex_def crcHashMod_def pathJoin_def exEnv_def exCache_def)
  have len: "length (cache exCache) = 4" by (simp add: exCache_def)
  have h1: "\<not> slotHolds exEnv () (cache exCache) ''b'' ''obj'' ((1 + j) mod 4)" if "j < 3" for j
  proof -
    from that have "j = 0 \<or> j = 1 \<or> j = 2" by arith
    then show ?thesis by (elim disjE) (simp_all add: exEnv_def exCache_def slotHolds_def)
  qed
  have "3 < length (cache exCache)
          \<and> cache exCache ! ((hashIndex exEnv exCache ''b'' ''obj'' + 3) mod length (cache exCache))
              = Some (DiskCache ''/mnt/cache1'')
          \<and> IsOnline exEnv () (DiskCache ''/mnt/cache1'')
          \<and> Exists exEnv () (DiskCache ''/mnt/cache1'') ''b'' ''obj''
          \<and> (\<forall>j<3. \<not> slotHolds exEnv () (cache exCache) ''b'' ''obj''
                        ((hashIndex exEnv exCache ''b'' ''obj'' + j) mod length (cache exCache)))"
    unfolding idx len using h1 by (simp add: exEnv_def exCache_def)
  then have a: "getCacheToLoc exEnv exCache () ''b'' ''obj'' = Inr (DiskCache ''/mnt/cache1'')"
    using getCacheToLoc_affinity [of exCache exEnv "''b''" "''obj''" "()"] by blast
  have h2: "\<not> slotHolds exEnv () (cache exCache) ''b'' ''new'' i" if "i < 4" for i
  proof -
    from that have "i = 0 \<or> i = 1 \<or> i = 2 \<or> i = 3" by arith
    then show ?thesis by (elim disjE) (simp_all add: exEnv_def exCache_def slotHolds_def)
  qed
  have h3: "\<not> slotOnline exEnv () (cache exCache) ((1 + j) mod 4)" if "j < 2" for j
  proof -
    from that have "j = 0 \<or> j = 1" by arith
    then show ?thesis by (elim disjE) (simp_all add: exEnv_def exCache_def slotOnline_def)
  qed
  have "(\<forall>i<length (cache exCache). \<not> slotHolds exEnv () (cache exCache) ''b'' ''new'' i)
          \<and> 2 < length (cache exCache)
          \<and> cache exCache ! ((hashIndex exEnv exCache ''b'' ''new'' + 2) mod length (cache exCache))
              = Some (DiskCache ''/mnt/cache4'')
          \<and> IsOnline exEnv () (DiskCache ''/mnt/cache4'')
          \<and> (\<forall>j<2. \<not> slotOnline exEnv () (cache exCache)
                        ((hashIndex exEnv exCache ''b'' ''new'' + j) mod length (cache exCache)))"
    unfolding idx len using h2 h3 by (simp add: exEnv_def exCache_def)
  then have b: "getCacheToLoc exEnv exCache () ''b'' ''new'' = Inr (DiskCache ''/mnt/cache4'')"
    using getCacheToLoc_affinity [of exCache exEnv "''b''" "''new''" "()"] by blast
  let ?c = "exCache\<lparr>cache := [None, Some (DiskCache ''/mnt/cache3'')]\<rparr>"
  have h4: "\<not> slotOnline exEnv () (cache ?c) i" if "i < 2" for i
  proof -
    from that have "i = 0 \<or> i = 1" by arith
    then show ?thesis by (elim disjE) (simp_all add: exEnv_def exCache_def slotOnline_def)
  qed
  have "\<forall>i<length (cache ?c). \<not> slotOnline exEnv () (cache ?c) i"
    using h4 by simp
  then have n: "getCacheToLoc exEnv ?c () ''b'' ''obj'' = Inl errDiskNotFound"
    using getCacheToLoc_affinity [of ?c exEnv "''b''" "''obj''" "()"] by blast
  show ?thesis using a b n by simp
qed

subsection \<open>Reads served from the cache\<close>

lemma call_fst [simp]: "fst (call ev f s) = fst (f (world s))"
  and call_world [simp]: "world (snd (call ev f s)) = snd (f (world s))"
  and call_trace [simp]: "trace (snd (call ev f s)) = trace s @ [ev (fst (f (world s)))]"
  and call_tasks [simp]: "tasks (snd (call ev f s)) = tasks s"
  by (simp_all add: call_def Let_def case_prod_beta)

lemma callv_simps [simp]:
  "world (callv ev g s) = g (world s)"
  "trace (callv ev g s) = trace s @ [ev]"
  "tasks (callv ev g s) = tasks s"
  by (simp_all add: callv_def)

lemma logEv_simps [simp]:
  "world (logEv ev s) = world s"
  "trace (logEv ev s) = trace s @ [ev]"
  "tasks (logEv ev s) = tasks s"
  by (simp_all add: logEv_def)

lemma skipCache_simps [simp]:
  "fst (skipCache c s) = migrating c"
  "world (snd (skipCache c s)) = world s"
  "trace (snd (skipCache c s)) = trace s @ [MigMutexLock, MigMutexUnlock]"
  "tasks (snd (skipCache c s)) = tasks s"
  by (simp_all add: skipCache_def Let_def)

lemma get_trace:
  "trace (snd (get E dcache bucket object rs h opts s)) =
     trace s @ (if fst (GetRLock E bucket object (globalObjectTimeout E) (world s)) = None
                then [NSGetRLock bucket object (globalObjectTimeout E) True,
                      CacheGet dcache bucket object, NSRUnlock bucket object]
                else [NSGetRLock bucket object (globalObjectTimeout E) False])"
  by (simp add: get_def Let_def case_prod_beta split: option.splits)

lemma stat_trace:
  "trace (snd (stat E dcache bucket object s)) =
     trace s @ (if fst (GetRLock E bucket object (globalObjectTimeout E) (world s)) = None
                then [NSGetRLock bucket object (globalObjectTimeout E) True,
                      CacheStat dcache bucket object, NSRUnlock bucket object]
                else [NSGetRLock bucket object (globalObjectTimeout E) False])"
  by (simp add: stat_def Let_def case_prod_beta split: option.splits)

lemma delete_trace:
  "trace (snd (delete E dcache bucket object s)) =
     trace s @ (if fst (GetLock E bucket object (globalObjectTimeout E) (world s)) = None
                then [NSGetLock bucket object (globalObjectTimeout E) True,
                      CacheDelete dcache bucket object, NSUnlock bucket object]
                else [NSGetLock bucket object (globalObjectTimeout E) False])"
  by (simp add: delete_def Let_def case_prod_beta split: option.splits)

lemma put_trace:
  "trace (snd (put E dcache bucket object data n opts s)) =
     trace s @ (if fst (GetLock E bucket object (globalObjectTimeout E) (world s)) = None
                then [NSGetLock bucket object (globalObjectTimeout E) True,
                      CachePut dcache bucket object, NSUnlock bucket object]
                else [NSGetLock bucket object (globalObjectTimeout E) False])"
  by (simp add: put_def Let_def case_prod_beta split: option.splits)

lemma accessor_tasks [simp]:
  "tasks (snd (get E dcache bucket object rs h opts s)) = tasks s"
  "tasks (snd (stat E dcache bucket object s)) = tasks s"
  "tasks (snd (delete E dcache bucket object s)) = tasks s"
  "tasks (snd (put E dcache bucket object data n opts s)) = tasks s"
  by (simp_all add: get_def stat_def delete_def put_def Let_def case_prod_beta split: option.splits)

lemma admission_backend_independent [simp]:
  "isCacheExclude E (c\<lparr>GetObjectNInfoFn := f, GetObjectInfoFn := g, DeleteObjectFn := d,
       DeleteObjectsFn := ds\<rparr>) bucket object = isCacheExclude E c bucket object"
  "skipCache (c\<lparr>GetObjectNInfoFn := f, GetObjectInfoFn := g, DeleteObjectFn := d,
       DeleteObjectsFn := ds\<rparr>) s = skipCache c s"
  "getCacheToLoc E (c\<lparr>GetObjectNInfoFn := f, GetObjectInfoFn := g, DeleteObjectFn := d,
       DeleteObjectsFn := ds\<rparr>) w bucket object = getCacheToLoc E c w bucket object"
  by (simp_all add: isCacheExclude_def skipCache_def getCacheToLoc_def hashIndex_def)

lemma GetObjectNInfo_admitted:
  assumes "\<not> isCacheExclude E c bucket object" "\<not> migrating c"
    and "getCacheToLoc E c (world s) bucket object = Inr dcache"
    and "get E dcache bucket object rs h opts (snd (skipCache c s)) = (cacheRes, s1)"
  shows "GetObjectNInfo E c bucket object rs h lockType opts s =
     (case cacheRes of
        Inr cacheReader \<Rightarrow>
          if fresh E (world s1) (ObjInfo cacheReader) then (Inr cacheReader, s1)
          else GetObjectNInfo_revalidate E c dcache bucket object rs h lockType opts cacheRes s1
      | Inl cacheErr \<Rightarrow>
          GetObjectNInfo_revalidate E c dcache bucket object rs h lockType opts cacheRes s1)"
  using assms
  by (simp add: GetObjectNInfo_def fresh_def Let_def case_prod_beta split: sum.splits)

lemma GetObjectInfo_admitted:
  assumes "\<not> isCacheExclude E c bucket object" "\<not> migrating c"
    and "getCacheToLoc E c (world s) bucket object = Inr dcache"
    and "stat E dcache bucket object (snd (skipCache c s)) = (cres, s1)"
    and "\<forall>oi. cres = Inr oi \<longrightarrow> \<not> fresh E (world s1) oi"
  shows "GetObjectInfo E c bucket object opts s =
     (let (res, s2) = callGetObjectInfoFn c bucket object opts s1 in
      case res of
        Inl err \<Rightarrow>
          if isObjectNotFound err then (Inl err, snd (delete E dcache bucket object s2))
          else if \<not> backendDownError (Some err) then (Inl err, s2)
          else (case cres of
                  Inr cachedObjInfo \<Rightarrow> (Inr cachedObjInfo, s2)
                | Inl cerr \<Rightarrow> (Inl BackendDown, s2))
      | Inr objInfo \<Rightarrow>
          (case cres of
             Inl cerr \<Rightarrow> (Inr objInfo, s2)
           | Inr cachedObjInfo \<Rightarrow>
               if ETag cachedObjInfo \<noteq> ETag objInfo
               then (Inr objInfo, snd (delete E dcache bucket object s2))
               else (Inr objInfo, s2)))"
proof (cases cres)
  case (Inl cerr)
  with assms(1-4) show ?thesis
    by (simp add: GetObjectInfo_def Let_def case_prod_beta split: sum.splits)
next
  case (Inr oi)
  with assms(5) have "isEmpty E (cacheControlOpts E oi)
      \<or> isStale E (world s1) (cacheControlOpts E oi) (ModTime oi)"
    by (simp add: fresh_def)
  with Inr assms(1-4) show ?thesis
    by (auto simp: GetObjectInfo_def Let_def case_prod_beta split: sum.splits)
qed


lemma callFn_simps [simp]:
  "fst (callGetObjectNInfoFn c bucket object rs h lockType opts s)
     = fst (GetObjectNInfoFn c bucket object rs h lockType opts (world s))"
  "world (snd (callGetObjectNInfoFn c bucket object rs h lockType opts s))
     = snd (GetObjectNInfoFn c bucket object rs h lockType opts (world s))"
  "trace (snd (callGetObjectNInfoFn c bucket object rs h lockType opts s))
     = trace s @ [BackendGetObjectNInfo bucket object rs]"
  "tasks (snd (callGetObjectNInfoFn c bucket object rs h lockType opts s)) = tasks s"
  "fst (callGetObjectInfoFn c bucket object opts s)
     = fst (GetObjectInfoFn c bucket object opts (world s))"
  "world (snd (callGetObjectInfoFn c bucket object opts s))
     = snd (GetObjectInfoFn c bucket object opts (world s))"
  "trace (snd (callGetObjectInfoFn c bucket object opts s))
     = trace s @ [BackendGetObjectInfo bucket object]"
  "tasks (snd (callGetObjectInfoFn c bucket object opts s)) = tasks s"
  "fst (callDeleteObjectFn c bucket object s) = fst (DeleteObjectFn c bucket object (world s))"
  "world (snd (callDeleteObjectFn c bucket object s))
     = snd (DeleteObjectFn c bucket object (world s))"
  "trace (snd (callDeleteObjectFn c bucket object s))
     = trace s @ [BackendDeleteObject bucket object]"
  "tasks (snd (callDeleteObjectFn c bucket object s)) = tasks s"
  by (simp_all add: callGetObjectNInfoFn_def callGetObjectInfoFn_def callDeleteObjectFn_def)

lemma get_no_backend:
  "filter isBackendCall (trace (snd (get E dcache bucket object rs h opts s)))
     = filter isBackendCall (trace s)"
  by (simp add: get_trace)

lemma stat_no_backend:
  "filter isBackendCall (trace (snd (stat E dcache bucket object s)))
     = filter isBackendCall (trace s)"
  by (simp add: stat_trace)

lemmas example_defs =
  exEnv_def exCache_def exState_def exInfo_def exStaleInfo_def exReader_def exStaleReader_def
  exBackendReader_def exOpts_def exStaleEnv_def exRangeEnv_def exMissEnv_def exBusyEnv_def
  exGoneCache_def exDownCache_def exDenyCache_def exMigEnv_def exMigCache_def

lemmas model_defs =
  hashIndex_def crcHashMod_def pathJoin_def getCacheLoc_def getCacheToLoc_def
  isCacheExclude_def HasSuffix_def SlashSeparator_def skipCache_def logEv_def
  call_def callv_def spawn_def get_def stat_def put_def delete_def
  callGetObjectNInfoFn_def callGetObjectInfoFn_def callDeleteObjectFn_def
  backendDownError_def fresh_def

text \<open>
  Claim C1. When the object is neither excluded nor the cache in migration, a
  drive is found, the lock-framed \<open>Get\<close> of that drive succeeds and the entry is
  fresh by its cache-control, \<open>GetObjectNInfo\<close> returns the cached reader in the
  state the cache read left: no backend function has been called, and the
  outcome is the same whatever the backend functions are. \<open>GetObjectInfo\<close> does
  the same with \<open>Stat\<close> and the cached \<open>ObjectInfo\<close>.
\<close>

theorem fresh_hit_no_backend:
  "(\<not> isCacheExclude E c bucket object \<and> \<not> migrating c
      \<and> getCacheToLoc E c (world s) bucket object = Inr dcache
      \<and> get E dcache bucket object rs h opts (snd (skipCache c s)) = (Inr cacheReader, s1)
      \<and> fresh E (world s1) (ObjInfo cacheReader)
    \<longrightarrow> GetObjectNInfo E c bucket object rs h lockType opts s = (Inr cacheReader, s1)
        \<and> filter isBackendCall (trace s1) = filter isBackendCall (trace s)
        \<and> (\<forall>f g d ds.
              GetObjectNInfo E (c\<lparr>GetObjectNInfoFn := f, GetObjectInfoFn := g,
                                  DeleteObjectFn := d, DeleteObjectsFn := ds\<rparr>)
                bucket object rs h lockType opts s = (Inr cacheReader, s1)))
   \<and> (\<not> isCacheExclude E c bucket object \<and> \<not> migrating c
      \<and> getCacheToLoc E c (world s) bucket object = Inr dcache
      \<and> stat E dcache bucket object (snd (skipCache c s)) = (Inr cachedObjInfo, s1')
      \<and> fresh E (world s1') cachedObjInfo
    \<longrightarrow> GetObjectInfo E c bucket object opts s = (Inr cachedObjInfo, s1')
        \<and> filter isBackendCall (trace s1') = filter isBackendCall (trace s)
        \<and> (\<forall>f g d ds.
              GetObjectInfo E (c\<lparr>GetObjectNInfoFn := f, GetObjectInfoFn := g,
                                 DeleteObjectFn := d, DeleteObjectsFn := ds\<rparr>)
                bucket object opts s = (Inr cachedObjInfo, s1')))"
proof (intro conjI impI allI)
  assume a: "\<not> isCacheExclude E c bucket object \<and> \<not> migrating c
      \<and> getCacheToLoc E c (world s) bucket object = Inr dcache
      \<and> get E dcache bucket object rs h opts (snd (skipCache c s)) = (Inr cacheReader, s1)
      \<and> fresh E (world s1) (ObjInfo cacheReader)"
  show "GetObjectNInfo E c bucket object rs h lockType opts s = (Inr cacheReader, s1)"
    using a GetObjectNInfo_admitted[of E c bucket object s dcache rs h opts "Inr cacheReader" s1]
    by simp
  have "s1 = snd (get E dcache bucket object rs h opts (snd (skipCache c s)))"
    using a by simp
  then show "filter isBackendCall (trace s1) = filter isBackendCall (trace s)"
    by (simp add: get_no_backend)
  fix f g d ds
  let ?c = "c\<lparr>GetObjectNInfoFn := f, GetObjectInfoFn := g, DeleteObjectFn := d,
               DeleteObjectsFn := ds\<rparr>"
  show "GetObjectNInfo E ?c bucket object rs h lockType opts s = (Inr cacheReader, s1)"
    using a GetObjectNInfo_admitted[of E ?c bucket object s dcache rs h opts "Inr cacheReader" s1]
    by simp
next
  assume a: "\<not> isCacheExclude E c bucket object \<and> \<not> migrating c
      \<and> getCacheToLoc E c (world s) bucket object = Inr dcache
      \<and> stat E dcache bucket object (snd (skipCache c s)) = (Inr cachedObjInfo, s1')
      \<and> fresh E (world s1') cachedObjInfo"
  have unfold: "GetObjectInfo E c' bucket object opts s = (Inr cachedObjInfo, s1')"
    if "isCacheExclude E c' bucket object = isCacheExclude E c bucket object"
       "skipCache c' s = skipCache c s"
       "getCacheToLoc E c' (world s) bucket object = getCacheToLoc E c (world s) bucket object"
    for c'
    using a that
    by (simp add: GetObjectInfo_def fresh_def Let_def case_prod_beta
             del: skipCache_simps(1)) (metis skipCache_simps(1))
  show "GetObjectInfo E c bucket object opts s = (Inr cachedObjInfo, s1')"
    by (rule unfold) simp_all
  have "s1' = snd (stat E dcache bucket object (snd (skipCache c s)))"
    using a by simp
  then show "filter isBackendCall (trace s1') = filter isBackendCall (trace s)"
    by (simp add: stat_no_backend)
  fix f g d ds
  show "GetObjectInfo E (c\<lparr>GetObjectNInfoFn := f, GetObjectInfoFn := g, DeleteObjectFn := d,
               DeleteObjectsFn := ds\<rparr>) bucket object opts s = (Inr cachedObjInfo, s1')"
    by (rule unfold) simp_all
qed


lemma ex_locate [simp]:
  "getCacheToLoc exEnv exCache w ''b'' ''obj'' = Inr (DiskCache ''/mnt/cache1'')"
  "getCacheToLoc exStaleEnv exCache w ''b'' ''obj'' = Inr (DiskCache ''/mnt/cache1'')"
  "getCacheToLoc exRangeEnv exCache w ''b'' ''obj'' = Inr (DiskCache ''/mnt/cache1'')"
  "getCacheToLoc exMissEnv exCache w ''b'' ''obj'' = Inr (DiskCache ''/mnt/cache1'')"
  "getCacheToLoc exBusyEnv exCache w ''b'' ''obj'' = Inr (DiskCache ''/mnt/cache1'')"
  by (simp_all add: example_defs model_defs upt_rec)

lemma ex_locate_backend [simp]:
  "getCacheToLoc E exGoneCache w bucket object = getCacheToLoc E exCache w bucket object"
  "getCacheToLoc E exDownCache w bucket object = getCacheToLoc E exCache w bucket object"
  "isCacheExclude E exGoneCache bucket object = isCacheExclude E exCache bucket object"
  "isCacheExclude E exDownCache bucket object = isCacheExclude E exCache bucket object"
  by (simp_all add: exGoneCache_def exDownCache_def getCacheToLoc_def hashIndex_def isCacheExclude_def)

lemma ex_admit [simp]:
  "\<not> isCacheExclude exEnv exCache ''b'' ''obj''"
  "\<not> isCacheExclude exStaleEnv exCache ''b'' ''obj''"
  "\<not> isCacheExclude exRangeEnv exCache ''b'' ''obj''"
  "\<not> isCacheExclude exMissEnv exCache ''b'' ''obj''"
  "\<not> isCacheExclude exBusyEnv exCache ''b'' ''obj''"
  "\<not> migrating exCache" "\<not> migrating exGoneCache" "\<not> migrating exDownCache"
  by (simp_all add: example_defs model_defs)

theorem fresh_hit_no_backend_witness:
  "fst (GetObjectNInfo exEnv exCache ''b'' ''obj'' None [] readLock exOpts exState) = Inr exReader
   \<and> trace (snd (GetObjectNInfo exEnv exCache ''b'' ''obj'' None [] readLock exOpts exState))
       = [MigMutexLock, MigMutexUnlock, NSGetRLock ''b'' ''obj'' 60 True,
          CacheGet (DiskCache ''/mnt/cache1'') ''b'' ''obj'', NSRUnlock ''b'' ''obj'']
   \<and> fst (GetObjectInfo exEnv exCache ''b'' ''obj'' exOpts exState) = Inr exInfo
   \<and> trace (snd (GetObjectInfo exEnv exCache ''b'' ''obj'' exOpts exState))
       = [MigMutexLock, MigMutexUnlock, NSGetRLock ''b'' ''obj'' 60 True,
          CacheStat (DiskCache ''/mnt/cache1'') ''b'' ''obj'', NSRUnlock ''b'' ''obj'']"
proof -
  let ?d = "DiskCache ''/mnt/cache1''"
  let ?s1 = "snd (get exEnv ?d ''b'' ''obj'' None [] exOpts (snd (skipCache exCache exState)))"
  let ?s1' = "snd (stat exEnv ?d ''b'' ''obj'' (snd (skipCache exCache exState)))"
  have g: "get exEnv ?d ''b'' ''obj'' None [] exOpts (snd (skipCache exCache exState))
             = (Inr exReader, ?s1)"
    by (simp add: prod_eq_iff) (simp add: exEnv_def get_def call_def)
  have st: "stat exEnv ?d ''b'' ''obj'' (snd (skipCache exCache exState)) = (Inr exInfo, ?s1')"
    by (simp add: prod_eq_iff) (simp add: exEnv_def stat_def call_def)
  have f: "fresh exEnv w (ObjInfo exReader)" "fresh exEnv w exInfo" for w
    by (simp_all add: fresh_def exEnv_def exReader_def exInfo_def)
  have n: "GetObjectNInfo exEnv exCache ''b'' ''obj'' None [] readLock exOpts exState
             = (Inr exReader, ?s1)"
    using fresh_hit_no_backend [where E = exEnv and c = exCache and bucket = "''b''"
        and object = "''obj''" and s = exState and dcache = ?d and rs = None and h = "[]"
        and opts = exOpts and cacheReader = exReader and ?s1.0 = ?s1 and lockType = readLock]
      g f by simp
  have i: "GetObjectInfo exEnv exCache ''b'' ''obj'' exOpts exState = (Inr exInfo, ?s1')"
    using fresh_hit_no_backend [where E = exEnv and c = exCache and bucket = "''b''"
        and object = "''obj''" and s = exState and dcache = ?d
        and opts = exOpts and cachedObjInfo = exInfo and s1' = ?s1']
      st f by simp
  show ?thesis
    unfolding n i by (simp add: get_trace stat_trace) (simp add: exEnv_def exState_def)
qed

text \<open>
  Claim C2. On a stale cache hit of \<open>GetObjectNInfo\<close>, when the backend's
  \<open>GetObjectInfoFn\<close> succeeds with a cacheable object whose ETag is the cached
  one, the coordinator calls \<open>updateMetadataIfChanged\<close> with the backend's and the
  cached \<open>ObjectInfo\<close> and returns the cached reader. After the cache read it has
  issued exactly these two calls: no \<open>GetObjectNInfoFn\<close>, and no goroutine that
  would fill the cache. The world it leaves is the one \<open>updateMetadataIfChanged\<close>,
  applied to the backend's \<open>ObjectInfo\<close> as the new and the cached one as the old,
  made of the world the backend left.
\<close>

theorem stale_hit_same_etag:
  "\<not> isCacheExclude E c bucket object \<and> \<not> migrating c
     \<and> getCacheToLoc E c (world s) bucket object = Inr dcache
     \<and> get E dcache bucket object rs h opts (snd (skipCache c s)) = (Inr cacheReader, s1)
     \<and> \<not> fresh E (world s1) (ObjInfo cacheReader)
     \<and> fst (GetObjectInfoFn c bucket object opts (world s1)) = Inr objInfo
     \<and> IsCacheable E objInfo
     \<and> ETag (ObjInfo cacheReader) = ETag objInfo
   \<longrightarrow> fst (GetObjectNInfo E c bucket object rs h lockType opts s) = Inr cacheReader
       \<and> trace (snd (GetObjectNInfo E c bucket object rs h lockType opts s))
           = trace s1 @ [BackendGetObjectInfo bucket object,
                         CacheUpdateMetadata dcache bucket object objInfo (ObjInfo cacheReader)]
       \<and> tasks (snd (GetObjectNInfo E c bucket object rs h lockType opts s)) = tasks s
       \<and> world (snd (GetObjectNInfo E c bucket object rs h lockType opts s))
           = snd (updateMetadataIfChanged E dcache bucket object objInfo (ObjInfo cacheReader)
                    (snd (GetObjectInfoFn c bucket object opts (world s1))))"
proof
  assume a: "\<not> isCacheExclude E c bucket object \<and> \<not> migrating c
     \<and> getCacheToLoc E c (world s) bucket object = Inr dcache
     \<and> get E dcache bucket object rs h opts (snd (skipCache c s)) = (Inr cacheReader, s1)
     \<and> \<not> fresh E (world s1) (ObjInfo cacheReader)
     \<and> fst (GetObjectInfoFn c bucket object opts (world s1)) = Inr objInfo
     \<and> IsCacheable E objInfo
     \<and> ETag (ObjInfo cacheReader) = ETag objInfo"
  have s1: "s1 = snd (get E dcache bucket object rs h opts (snd (skipCache c s)))"
    using a by simp
  have "GetObjectNInfo E c bucket object rs h lockType opts s =
          GetObjectNInfo_revalidate E c dcache bucket object rs h lockType opts
            (Inr cacheReader) s1"
    using a GetObjectNInfo_admitted[of E c bucket object s dcache rs h opts "Inr cacheReader" s1]
    by simp
  moreover have "tasks s1 = tasks s" unfolding s1 by simp
  ultimately show "fst (GetObjectNInfo E c bucket object rs h lockType opts s) = Inr cacheReader
       \<and> trace (snd (GetObjectNInfo E c bucket object rs h lockType opts s))
           = trace s1 @ [BackendGetObjectInfo bucket object,
                         CacheUpdateMetadata dcache bucket object objInfo (ObjInfo cacheReader)]
       \<and> tasks (snd (GetObjectNInfo E c bucket object rs h lockType opts s)) = tasks s
       \<and> world (snd (GetObjectNInfo E c bucket object rs h lockType opts s))
           = snd (updateMetadataIfChanged E dcache bucket object objInfo (ObjInfo cacheReader)
                    (snd (GetObjectInfoFn c bucket object opts (world s1))))"
    using a
    by (simp add: GetObjectNInfo_revalidate_def Let_def case_prod_beta backendDownError_def)
qed

theorem stale_hit_same_etag_witness:
  "fst (GetObjectNInfo exMetaEnv exMetaCache ''b'' ''obj'' None [] readLock exOpts exMetaState)
       = Inr exStaleReader
   \<and> trace (snd (GetObjectNInfo exMetaEnv exMetaCache ''b'' ''obj'' None [] readLock exOpts
                   exMetaState))
       = [MigMutexLock, MigMutexUnlock, NSGetRLock ''b'' ''obj'' 60 True,
          CacheGet (DiskCache ''/mnt/cache1'') ''b'' ''obj'', NSRUnlock ''b'' ''obj'',
          BackendGetObjectInfo ''b'' ''obj'',
          CacheUpdateMetadata (DiskCache ''/mnt/cache1'') ''b'' ''obj'' exInfo exStaleInfo]
   \<and> tasks (snd (GetObjectNInfo exMetaEnv exMetaCache ''b'' ''obj'' None [] readLock exOpts
                   exMetaState))
       = []
   \<and> world (snd (GetObjectNInfo exMetaEnv exMetaCache ''b'' ''obj'' None [] readLock exOpts
                   exMetaState))
       = [(exInfo, exStaleInfo)]"
proof -
  let ?d = "DiskCache ''/mnt/cache1''"
  let ?s1 = "snd (get exMetaEnv ?d ''b'' ''obj'' None [] exOpts
                    (snd (skipCache exMetaCache exMetaState)))"
  have adm: "\<not> isCacheExclude exMetaEnv exMetaCache ''b'' ''obj''" "\<not> migrating exMetaCache"
    "getCacheToLoc exMetaEnv exMetaCache (world exMetaState) ''b'' ''obj'' = Inr ?d"
    by (simp_all add: exMetaEnv_def exMetaCache_def model_defs upt_rec)
  have g: "get exMetaEnv ?d ''b'' ''obj'' None [] exOpts (snd (skipCache exMetaCache exMetaState))
             = (Inr exStaleReader, ?s1)"
    by (simp add: prod_eq_iff) (simp add: exMetaEnv_def get_def call_def)
  have f: "\<not> fresh exMetaEnv w (ObjInfo exStaleReader)" for w
    by (simp add: fresh_def exMetaEnv_def exStaleReader_def exStaleInfo_def exInfo_def)
  have b: "fst (GetObjectInfoFn exMetaCache ''b'' ''obj'' exOpts w) = Inr exInfo"
    "snd (GetObjectInfoFn exMetaCache ''b'' ''obj'' exOpts w) = w"
    "IsCacheable exMetaEnv exInfo" "ETag (ObjInfo exStaleReader) = ETag exInfo" for w
    by (simp_all add: exMetaEnv_def exMetaCache_def exStaleReader_def exStaleInfo_def exInfo_def)
  have t: "trace ?s1 = [MigMutexLock, MigMutexUnlock, NSGetRLock ''b'' ''obj'' 60 True,
          CacheGet (DiskCache ''/mnt/cache1'') ''b'' ''obj'', NSRUnlock ''b'' ''obj'']"
    "world ?s1 = []"
    by (simp_all add: get_trace)
       (simp_all add: exMetaEnv_def exMetaState_def get_def call_def callv_def)
  have u: "snd (updateMetadataIfChanged exMetaEnv ?d ''b'' ''obj'' exInfo (ObjInfo exStaleReader) w)
             = w @ [(exInfo, exStaleInfo)]" for w
    by (simp add: exMetaEnv_def exStaleReader_def)
  show ?thesis
    using stale_hit_same_etag [where E = exMetaEnv and c = exMetaCache and bucket = "''b''"
        and object = "''obj''" and s = exMetaState and dcache = ?d and rs = None and h = "[]"
        and opts = exOpts and cacheReader = exStaleReader and ?s1.0 = ?s1
        and lockType = readLock and objInfo = exInfo]
      adm g f b t u
    by (simp add: exMetaState_def exStaleReader_def)
qed

subsection \<open>Backend down\<close>

text \<open>
  Claim C4. When the backend's \<open>GetObjectInfoFn\<close> fails with a backend-down
  error, \<open>GetObjectNInfo\<close> returns the cached reader if the cache read before it
  succeeded, and \<open>GetObjectInfo\<close> returns the cached \<open>ObjectInfo\<close> if the cache
  stat before it succeeded and \<open>BackendDown\<close> if it did not. Nothing is called
  after the backend.
\<close>

theorem backend_down_serves_cached:
  "(\<not> isCacheExclude E c bucket object \<and> \<not> migrating c
      \<and> getCacheToLoc E c (world s) bucket object = Inr dcache
      \<and> get E dcache bucket object rs h opts (snd (skipCache c s)) = (Inr cacheReader, s1)
      \<and> \<not> fresh E (world s1) (ObjInfo cacheReader)
      \<and> fst (GetObjectInfoFn c bucket object opts (world s1)) = Inl err
      \<and> backendDownError (Some err)
    \<longrightarrow> fst (GetObjectNInfo E c bucket object rs h lockType opts s) = Inr cacheReader
        \<and> trace (snd (GetObjectNInfo E c bucket object rs h lockType opts s))
            = trace s1 @ [BackendGetObjectInfo bucket object])
   \<and> (\<not> isCacheExclude E c bucket object \<and> \<not> migrating c
      \<and> getCacheToLoc E c (world s) bucket object = Inr dcache
      \<and> stat E dcache bucket object (snd (skipCache c s)) = (cres, s1')
      \<and> (\<forall>oi. cres = Inr oi \<longrightarrow> \<not> fresh E (world s1') oi)
      \<and> fst (GetObjectInfoFn c bucket object opts (world s1')) = Inl err'
      \<and> backendDownError (Some err')
    \<longrightarrow> fst (GetObjectInfo E c bucket object opts s)
          = (case cres of Inr cachedObjInfo \<Rightarrow> Inr cachedObjInfo | Inl cerr \<Rightarrow> Inl BackendDown)
        \<and> trace (snd (GetObjectInfo E c bucket object opts s))
            = trace s1' @ [BackendGetObjectInfo bucket object])"
proof (intro conjI impI)
  assume a: "\<not> isCacheExclude E c bucket object \<and> \<not> migrating c
      \<and> getCacheToLoc E c (world s) bucket object = Inr dcache
      \<and> get E dcache bucket object rs h opts (snd (skipCache c s)) = (Inr cacheReader, s1)
      \<and> \<not> fresh E (world s1) (ObjInfo cacheReader)
      \<and> fst (GetObjectInfoFn c bucket object opts (world s1)) = Inl err
      \<and> backendDownError (Some err)"
  have r: "GetObjectNInfo E c bucket object rs h lockType opts s =
          GetObjectNInfo_revalidate E c dcache bucket object rs h lockType opts
            (Inr cacheReader) s1"
    using a GetObjectNInfo_admitted[of E c bucket object s dcache rs h opts "Inr cacheReader" s1]
    by simp
  show "fst (GetObjectNInfo E c bucket object rs h lockType opts s) = Inr cacheReader"
    unfolding r using a by (simp add: GetObjectNInfo_revalidate_def Let_def case_prod_beta)
  show "trace (snd (GetObjectNInfo E c bucket object rs h lockType opts s))
            = trace s1 @ [BackendGetObjectInfo bucket object]"
    unfolding r using a by (simp add: GetObjectNInfo_revalidate_def Let_def case_prod_beta)
next
  assume a: "\<not> isCacheExclude E c bucket object \<and> \<not> migrating c
      \<and> getCacheToLoc E c (world s) bucket object = Inr dcache
      \<and> stat E dcache bucket object (snd (skipCache c s)) = (cres, s1')
      \<and> (\<forall>oi. cres = Inr oi \<longrightarrow> \<not> fresh E (world s1') oi)
      \<and> fst (GetObjectInfoFn c bucket object opts (world s1')) = Inl err'
      \<and> backendDownError (Some err')"
  then have nf: "\<not> isObjectNotFound err'" by (simp add: backendDownError_def)
  note r = GetObjectInfo_admitted[of E c bucket object s dcache cres s1' opts]
  show "fst (GetObjectInfo E c bucket object opts s)
          = (case cres of Inr cachedObjInfo \<Rightarrow> Inr cachedObjInfo | Inl cerr \<Rightarrow> Inl BackendDown)"
    using a nf by (simp add: r Let_def case_prod_beta split: sum.splits)
  show "trace (snd (GetObjectInfo E c bucket object opts s))
            = trace s1' @ [BackendGetObjectInfo bucket object]"
    using a nf by (simp add: r Let_def case_prod_beta split: sum.splits)
qed

lemma ex_reads:
  "get exStaleEnv d ''b'' ''obj'' rs h opts s
     = (Inr exStaleReader, snd (get exStaleEnv d ''b'' ''obj'' rs h opts s))"
  "stat exStaleEnv d ''b'' ''obj'' s
     = (Inr exStaleInfo, snd (stat exStaleEnv d ''b'' ''obj'' s))"
  "stat exBusyEnv d ''b'' ''obj'' s
     = (Inr exStaleInfo, snd (stat exBusyEnv d ''b'' ''obj'' s))"
  "stat exMissEnv d ''b'' ''obj'' s
     = (Inl (ObjectNotFound ''b'' ''obj''), snd (stat exMissEnv d ''b'' ''obj'' s))"
  "get exRangeEnv d ''b'' ''obj'' rs h opts s
     = (Inl (OtherError ''invalid range''), snd (get exRangeEnv d ''b'' ''obj'' rs h opts s))"
  by (simp_all add: prod_eq_iff)
     (simp_all add: exStaleEnv_def exBusyEnv_def exMissEnv_def exRangeEnv_def exEnv_def
        get_def stat_def call_def)

lemma ex_stale:
  "\<not> fresh exStaleEnv w (ObjInfo exStaleReader)" "\<not> fresh exStaleEnv w exStaleInfo"
  "\<not> fresh exBusyEnv w exStaleInfo"
  by (simp_all add: fresh_def exStaleEnv_def exBusyEnv_def exEnv_def exStaleReader_def
        exStaleInfo_def exInfo_def)

lemma ex_read_traces:
  "trace (snd (get exStaleEnv d ''b'' ''obj'' rs h opts (snd (skipCache c exState))))
     = [MigMutexLock, MigMutexUnlock, NSGetRLock ''b'' ''obj'' 60 True,
        CacheGet d ''b'' ''obj'', NSRUnlock ''b'' ''obj'']"
  "trace (snd (get exRangeEnv d ''b'' ''obj'' rs h opts (snd (skipCache c exState))))
     = [MigMutexLock, MigMutexUnlock, NSGetRLock ''b'' ''obj'' 60 True,
        CacheGet d ''b'' ''obj'', NSRUnlock ''b'' ''obj'']"
  "trace (snd (stat exStaleEnv d ''b'' ''obj'' (snd (skipCache c exState))))
     = [MigMutexLock, MigMutexUnlock, NSGetRLock ''b'' ''obj'' 60 True,
        CacheStat d ''b'' ''obj'', NSRUnlock ''b'' ''obj'']"
  "trace (snd (stat exBusyEnv d ''b'' ''obj'' (snd (skipCache c exState))))
     = [MigMutexLock, MigMutexUnlock, NSGetRLock ''b'' ''obj'' 60 True,
        CacheStat d ''b'' ''obj'', NSRUnlock ''b'' ''obj'']"
  "trace (snd (stat exMissEnv d ''b'' ''obj'' (snd (skipCache c exState))))
     = [MigMutexLock, MigMutexUnlock, NSGetRLock ''b'' ''obj'' 60 True,
        CacheStat d ''b'' ''obj'', NSRUnlock ''b'' ''obj'']"
  by (simp_all add: get_trace stat_trace)
     (simp_all add: exStaleEnv_def exBusyEnv_def exMissEnv_def exRangeEnv_def exEnv_def
        exState_def)

theorem backend_down_serves_cached_witness:
  "fst (GetObjectNInfo exStaleEnv exDownCache ''b'' ''obj'' None [] readLock exOpts exState)
       = Inr exStaleReader
   \<and> fst (GetObjectInfo exStaleEnv exDownCache ''b'' ''obj'' exOpts exState) = Inr exStaleInfo
   \<and> fst (GetObjectInfo exMissEnv exDownCache ''b'' ''obj'' exOpts exState) = Inl BackendDown
   \<and> trace (snd (GetObjectInfo exMissEnv exDownCache ''b'' ''obj'' exOpts exState))
       = [MigMutexLock, MigMutexUnlock, NSGetRLock ''b'' ''obj'' 60 True,
          CacheStat (DiskCache ''/mnt/cache1'') ''b'' ''obj'', NSRUnlock ''b'' ''obj'',
          BackendGetObjectInfo ''b'' ''obj'']"
proof -
  let ?d = "DiskCache ''/mnt/cache1''"
  have b: "fst (GetObjectInfoFn exDownCache ''b'' ''obj'' exOpts w) = Inl BackendDown"
    "backendDownError (Some BackendDown)" for w
    by (simp_all add: exDownCache_def backendDownError_def)
  have n: "fst (GetObjectNInfo exStaleEnv exDownCache ''b'' ''obj'' None [] readLock exOpts exState)
       = Inr exStaleReader"
    using backend_down_serves_cached [where E = exStaleEnv and c = exDownCache
        and bucket = "''b''" and object = "''obj''" and s = exState and dcache = ?d
        and rs = None and h = "[]" and opts = exOpts and cacheReader = exStaleReader
        and err = BackendDown and lockType = readLock
        and ?s1.0 = "snd (get exStaleEnv ?d ''b'' ''obj'' None [] exOpts
                           (snd (skipCache exDownCache exState)))"]
      ex_reads(1) ex_stale b by simp
  have i: "fst (GetObjectInfo exStaleEnv exDownCache ''b'' ''obj'' exOpts exState) = Inr exStaleInfo"
    using backend_down_serves_cached [where E = exStaleEnv and c = exDownCache
        and bucket = "''b''" and object = "''obj''" and s = exState and dcache = ?d
        and opts = exOpts and cres = "Inr exStaleInfo" and err' = BackendDown
        and s1' = "snd (stat exStaleEnv ?d ''b'' ''obj'' (snd (skipCache exDownCache exState)))"]
      ex_reads(2) ex_stale b by simp
  have m: "fst (GetObjectInfo exMissEnv exDownCache ''b'' ''obj'' exOpts exState) = Inl BackendDown
     \<and> trace (snd (GetObjectInfo exMissEnv exDownCache ''b'' ''obj'' exOpts exState))
       = [MigMutexLock, MigMutexUnlock, NSGetRLock ''b'' ''obj'' 60 True,
          CacheStat (DiskCache ''/mnt/cache1'') ''b'' ''obj'', NSRUnlock ''b'' ''obj'',
          BackendGetObjectInfo ''b'' ''obj'']"
    using backend_down_serves_cached [where E = exMissEnv and c = exDownCache
        and bucket = "''b''" and object = "''obj''" and s = exState and dcache = ?d
        and opts = exOpts and cres = "Inl (ObjectNotFound ''b'' ''obj'')" and err' = BackendDown
        and s1' = "snd (stat exMissEnv ?d ''b'' ''obj'' (snd (skipCache exDownCache exState)))"]
      ex_reads(4) b by (simp add: ex_read_traces)
  show ?thesis using n i m by simp
qed

subsection \<open>Object not found on the backend\<close>

text \<open>
  Claim C3, as the code has it. When the backend's \<open>GetObjectInfoFn\<close> returns
  \<open>ObjectNotFound\<close>, both operations return that error. \<open>GetObjectNInfo\<close> then
  closes the cached reader and calls \<open>Delete\<close> on the drive if its cache read
  had succeeded, and calls nothing if it had failed. \<open>GetObjectInfo\<close> asks for
  the exclusive lock and calls \<open>Delete\<close> on the drive if the lock is granted,
  whatever its cache stat returned.
\<close>

theorem notfound_propagates_and_deletes:
  "(\<not> isCacheExclude E c bucket object \<and> \<not> migrating c
      \<and> getCacheToLoc E c (world s) bucket object = Inr dcache
      \<and> get E dcache bucket object rs h opts (snd (skipCache c s)) = (cacheRes, s1)
      \<and> (\<forall>r. cacheRes = Inr r \<longrightarrow> \<not> fresh E (world s1) (ObjInfo r))
      \<and> fst (GetObjectInfoFn c bucket object opts (world s1)) = Inl (ObjectNotFound nb nobj)
    \<longrightarrow> fst (GetObjectNInfo E c bucket object rs h lockType opts s)
          = Inl (ObjectNotFound nb nobj)
        \<and> trace (snd (GetObjectNInfo E c bucket object rs h lockType opts s))
            = trace s1 @ BackendGetObjectInfo bucket object
                # (case cacheRes of
                     Inr cacheReader \<Rightarrow>
                       [ReaderClose cacheReader, CacheDelete dcache bucket object]
                   | Inl cacheErr \<Rightarrow> []))
   \<and> (\<not> isCacheExclude E c bucket object \<and> \<not> migrating c
      \<and> getCacheToLoc E c (world s) bucket object = Inr dcache
      \<and> stat E dcache bucket object (snd (skipCache c s)) = (cres, s1')
      \<and> (\<forall>oi. cres = Inr oi \<longrightarrow> \<not> fresh E (world s1') oi)
      \<and> fst (GetObjectInfoFn c bucket object opts (world s1')) = Inl (ObjectNotFound nb' nobj')
    \<longrightarrow> fst (GetObjectInfo E c bucket object opts s) = Inl (ObjectNotFound nb' nobj')
        \<and> trace (snd (GetObjectInfo E c bucket object opts s))
            = trace s1' @ BackendGetObjectInfo bucket object
                # (if fst (GetLock E bucket object (globalObjectTimeout E)
                             (snd (GetObjectInfoFn c bucket object opts (world s1')))) = None
                   then [NSGetLock bucket object (globalObjectTimeout E) True,
                         CacheDelete dcache bucket object, NSUnlock bucket object]
                   else [NSGetLock bucket object (globalObjectTimeout E) False]))"
proof (intro conjI impI)
  assume a: "\<not> isCacheExclude E c bucket object \<and> \<not> migrating c
      \<and> getCacheToLoc E c (world s) bucket object = Inr dcache
      \<and> get E dcache bucket object rs h opts (snd (skipCache c s)) = (cacheRes, s1)
      \<and> (\<forall>r. cacheRes = Inr r \<longrightarrow> \<not> fresh E (world s1) (ObjInfo r))
      \<and> fst (GetObjectInfoFn c bucket object opts (world s1)) = Inl (ObjectNotFound nb nobj)"
  have r: "GetObjectNInfo E c bucket object rs h lockType opts s =
          GetObjectNInfo_revalidate E c dcache bucket object rs h lockType opts cacheRes s1"
    using a GetObjectNInfo_admitted[of E c bucket object s dcache rs h opts cacheRes s1]
    by (auto split: sum.splits)
  show "fst (GetObjectNInfo E c bucket object rs h lockType opts s)
          = Inl (ObjectNotFound nb nobj)"
    unfolding r using a
    by (simp add: GetObjectNInfo_revalidate_def Let_def case_prod_beta backendDownError_def
             split: sum.splits)
  show "trace (snd (GetObjectNInfo E c bucket object rs h lockType opts s))
            = trace s1 @ BackendGetObjectInfo bucket object
                # (case cacheRes of
                     Inr cacheReader \<Rightarrow>
                       [ReaderClose cacheReader, CacheDelete dcache bucket object]
                   | Inl cacheErr \<Rightarrow> [])"
    unfolding r using a
    by (simp add: GetObjectNInfo_revalidate_def Let_def case_prod_beta backendDownError_def
             split: sum.splits)
next
  assume a: "\<not> isCacheExclude E c bucket object \<and> \<not> migrating c
      \<and> getCacheToLoc E c (world s) bucket object = Inr dcache
      \<and> stat E dcache bucket object (snd (skipCache c s)) = (cres, s1')
      \<and> (\<forall>oi. cres = Inr oi \<longrightarrow> \<not> fresh E (world s1') oi)
      \<and> fst (GetObjectInfoFn c bucket object opts (world s1')) = Inl (ObjectNotFound nb' nobj')"
  note r = GetObjectInfo_admitted[of E c bucket object s dcache cres s1' opts]
  show "fst (GetObjectInfo E c bucket object opts s) = Inl (ObjectNotFound nb' nobj')"
    using a by (simp add: r Let_def case_prod_beta)
  show "trace (snd (GetObjectInfo E c bucket object opts s))
            = trace s1' @ BackendGetObjectInfo bucket object
                # (if fst (GetLock E bucket object (globalObjectTimeout E)
                             (snd (GetObjectInfoFn c bucket object opts (world s1')))) = None
                   then [NSGetLock bucket object (globalObjectTimeout E) True,
                         CacheDelete dcache bucket object, NSUnlock bucket object]
                   else [NSGetLock bucket object (globalObjectTimeout E) False])"
    using a by (simp add: r Let_def case_prod_beta delete_trace)
qed

theorem notfound_propagates_and_deletes_witness:
  "fst (GetObjectNInfo exStaleEnv exGoneCache ''b'' ''obj'' None [] readLock exOpts exState)
       = Inl (ObjectNotFound ''b'' ''obj'')
   \<and> trace (snd (GetObjectNInfo exStaleEnv exGoneCache ''b'' ''obj'' None [] readLock exOpts
                   exState))
       = [MigMutexLock, MigMutexUnlock, NSGetRLock ''b'' ''obj'' 60 True,
          CacheGet (DiskCache ''/mnt/cache1'') ''b'' ''obj'', NSRUnlock ''b'' ''obj'',
          BackendGetObjectInfo ''b'' ''obj'', ReaderClose exStaleReader,
          CacheDelete (DiskCache ''/mnt/cache1'') ''b'' ''obj'']
   \<and> fst (GetObjectInfo exStaleEnv exGoneCache ''b'' ''obj'' exOpts exState)
       = Inl (ObjectNotFound ''b'' ''obj'')
   \<and> trace (snd (GetObjectInfo exStaleEnv exGoneCache ''b'' ''obj'' exOpts exState))
       = [MigMutexLock, MigMutexUnlock, NSGetRLock ''b'' ''obj'' 60 True,
          CacheStat (DiskCache ''/mnt/cache1'') ''b'' ''obj'', NSRUnlock ''b'' ''obj'',
          BackendGetObjectInfo ''b'' ''obj'', NSGetLock ''b'' ''obj'' 60 True,
          CacheDelete (DiskCache ''/mnt/cache1'') ''b'' ''obj'', NSUnlock ''b'' ''obj'']"
proof -
  let ?d = "DiskCache ''/mnt/cache1''"
  have b: "fst (GetObjectInfoFn exGoneCache ''b'' ''obj'' exOpts w)
             = Inl (ObjectNotFound ''b'' ''obj'')" for w
    by (simp add: exGoneCache_def)
  have l: "fst (GetLock exStaleEnv ''b'' ''obj'' t w) = None"
    "globalObjectTimeout exStaleEnv = 60" for t w
    by (simp_all add: exStaleEnv_def exEnv_def)
  have n: "fst (GetObjectNInfo exStaleEnv exGoneCache ''b'' ''obj'' None [] readLock exOpts exState)
       = Inl (ObjectNotFound ''b'' ''obj'')
     \<and> trace (snd (GetObjectNInfo exStaleEnv exGoneCache ''b'' ''obj'' None [] readLock exOpts
                   exState))
       = [MigMutexLock, MigMutexUnlock, NSGetRLock ''b'' ''obj'' 60 True,
          CacheGet ?d ''b'' ''obj'', NSRUnlock ''b'' ''obj'',
          BackendGetObjectInfo ''b'' ''obj'', ReaderClose exStaleReader,
          CacheDelete ?d ''b'' ''obj'']"
    using notfound_propagates_and_deletes [where E = exStaleEnv and c = exGoneCache
        and bucket = "''b''" and object = "''obj''" and s = exState and dcache = ?d
        and rs = None and h = "[]" and opts = exOpts and cacheRes = "Inr exStaleReader"
        and nb = "''b''" and nobj = "''obj''" and lockType = readLock
        and ?s1.0 = "snd (get exStaleEnv ?d ''b'' ''obj'' None [] exOpts
                           (snd (skipCache exGoneCache exState)))"]
      ex_reads(1) ex_stale b by (simp add: ex_read_traces)
  have i: "fst (GetObjectInfo exStaleEnv exGoneCache ''b'' ''obj'' exOpts exState)
       = Inl (ObjectNotFound ''b'' ''obj'')
     \<and> trace (snd (GetObjectInfo exStaleEnv exGoneCache ''b'' ''obj'' exOpts exState))
       = [MigMutexLock, MigMutexUnlock, NSGetRLock ''b'' ''obj'' 60 True,
          CacheStat ?d ''b'' ''obj'', NSRUnlock ''b'' ''obj'',
          BackendGetObjectInfo ''b'' ''obj'', NSGetLock ''b'' ''obj'' 60 True,
          CacheDelete ?d ''b'' ''obj'', NSUnlock ''b'' ''obj'']"
    using notfound_propagates_and_deletes [where E = exStaleEnv and c = exGoneCache
        and bucket = "''b''" and object = "''obj''" and s = exState and dcache = ?d
        and opts = exOpts and cres = "Inr exStaleInfo"
        and nb' = "''b''" and nobj' = "''obj''"
        and s1' = "snd (stat exStaleEnv ?d ''b'' ''obj'' (snd (skipCache exGoneCache exState)))"]
      ex_reads(2) ex_stale b l by (simp add: ex_read_traces)
  show ?thesis using n i by simp
qed

text \<open>
  Claim C3 as stated fails. The drive found for \<open>b/obj\<close> holds the object and
  the backend answers \<open>ObjectNotFound\<close>; yet \<open>GetObjectNInfo\<close>, whose cache read
  failed on the requested range, and \<open>GetObjectInfo\<close>, whose exclusive lock was
  not granted, both return without a \<open>Delete\<close> of the drive.
\<close>

theorem notfound_keeps_entry_counterexample:
  "Exists exRangeEnv () (DiskCache ''/mnt/cache1'') ''b'' ''obj''
   \<and> getCacheToLoc exRangeEnv exGoneCache () ''b'' ''obj'' = Inr (DiskCache ''/mnt/cache1'')
   \<and> fst (GetObjectInfoFn exGoneCache ''b'' ''obj'' exOpts ()) = Inl (ObjectNotFound ''b'' ''obj'')
   \<and> fst (GetObjectNInfo exRangeEnv exGoneCache ''b'' ''obj'' (Some (5000, 6000)) [] readLock
            exOpts exState) = Inl (ObjectNotFound ''b'' ''obj'')
   \<and> trace (snd (GetObjectNInfo exRangeEnv exGoneCache ''b'' ''obj'' (Some (5000, 6000)) []
                   readLock exOpts exState))
       = [MigMutexLock, MigMutexUnlock, NSGetRLock ''b'' ''obj'' 60 True,
          CacheGet (DiskCache ''/mnt/cache1'') ''b'' ''obj'', NSRUnlock ''b'' ''obj'',
          BackendGetObjectInfo ''b'' ''obj'']
   \<and> Exists exBusyEnv () (DiskCache ''/mnt/cache1'') ''b'' ''obj''
   \<and> getCacheToLoc exBusyEnv exGoneCache () ''b'' ''obj'' = Inr (DiskCache ''/mnt/cache1'')
   \<and> fst (GetObjectInfo exBusyEnv exGoneCache ''b'' ''obj'' exOpts exState)
       = Inl (ObjectNotFound ''b'' ''obj'')
   \<and> trace (snd (GetObjectInfo exBusyEnv exGoneCache ''b'' ''obj'' exOpts exState))
       = [MigMutexLock, MigMutexUnlock, NSGetRLock ''b'' ''obj'' 60 True,
          CacheStat (DiskCache ''/mnt/cache1'') ''b'' ''obj'', NSRUnlock ''b'' ''obj'',
          BackendGetObjectInfo ''b'' ''obj'', NSGetLock ''b'' ''obj'' 60 False]"
proof -
  let ?d = "DiskCache ''/mnt/cache1''"
  have e: "Exists exRangeEnv () ?d ''b'' ''obj''" "Exists exBusyEnv () ?d ''b'' ''obj''"
    by (simp_all add: exRangeEnv_def exBusyEnv_def exStaleEnv_def exEnv_def)
  have b: "fst (GetObjectInfoFn exGoneCache ''b'' ''obj'' exOpts w)
             = Inl (ObjectNotFound ''b'' ''obj'')" for w
    by (simp add: exGoneCache_def)
  have n: "GetObjectNInfo exRangeEnv exGoneCache ''b'' ''obj'' (Some (5000, 6000)) [] readLock
             exOpts exState
           = GetObjectNInfo_revalidate exRangeEnv exGoneCache ?d ''b'' ''obj''
               (Some (5000, 6000)) [] readLock exOpts (Inl (OtherError ''invalid range''))
               (snd (get exRangeEnv ?d ''b'' ''obj'' (Some (5000, 6000)) [] exOpts
                      (snd (skipCache exGoneCache exState))))"
    using GetObjectNInfo_admitted [where E = exRangeEnv and c = exGoneCache
        and bucket = "''b''" and object = "''obj''" and s = exState and dcache = ?d,
        OF _ _ _ ex_reads(5)]
    by simp
  have i: "GetObjectInfo exBusyEnv exGoneCache ''b'' ''obj'' exOpts exState
           = (Inl (ObjectNotFound ''b'' ''obj''),
              snd (delete exBusyEnv ?d ''b'' ''obj''
                     (snd (callGetObjectInfoFn exGoneCache ''b'' ''obj'' exOpts
                            (snd (stat exBusyEnv ?d ''b'' ''obj''
                                    (snd (skipCache exGoneCache exState))))))))"
    using GetObjectInfo_admitted [where E = exBusyEnv and c = exGoneCache
        and bucket = "''b''" and object = "''obj''" and s = exState and dcache = ?d,
        OF _ _ _ ex_reads(3)] ex_stale b
    by (simp add: Let_def case_prod_beta)
  have l: "fst (GetLock exBusyEnv ''b'' ''obj'' t w) = Some OperationTimedOut"
    "globalObjectTimeout exBusyEnv = 60" for t w
    by (simp_all add: exBusyEnv_def exStaleEnv_def exEnv_def)
  show ?thesis
    unfolding n i using e b l
    by (simp add: GetObjectNInfo_revalidate_def Let_def case_prod_beta backendDownError_def
          delete_trace ex_read_traces)
qed

subsection \<open>DeleteObject\<close>

lemma DeleteObject_cases:
  "DeleteObject E c bucket object s =
     (let s1 = snd (callDeleteObjectFn c bucket object s);
          err = fst (DeleteObjectFn c bucket object (world s))
      in if err \<noteq> None \<or> isCacheExclude E c bucket object then (err, s1)
         else if migrating c then (err, snd (skipCache c s1))
         else case getCacheLoc E c (world s1) bucket object of
                Inl cerr \<Rightarrow> (err, snd (skipCache c s1))
              | Inr dcache \<Rightarrow>
                  if Exists E (world s1) dcache bucket object
                  then (err, snd (delete E dcache bucket object (snd (skipCache c s1))))
                  else (err, snd (skipCache c s1)))"
  by (simp add: DeleteObject_def Let_def case_prod_beta split: sum.splits)

lemma delete_cacheOps:
  "filter isCacheOp (trace (snd (delete E dcache bucket object s)))
     = filter isCacheOp (trace s)
       @ (if fst (GetLock E bucket object (globalObjectTimeout E) (world s)) = None
          then [CacheDelete dcache bucket object] else [])"
  by (simp add: delete_trace)




subsection \<open>DeleteObjects\<close>

lemma DeleteObjects_loop_length:
  "length (fst (DeleteObjects_loop E c bucket errs ixs s)) = length errs"
  by (induction ixs arbitrary: errs s) (auto simp: case_prod_beta Let_def)

lemma DeleteObjects_loop_state:
  "snd (DeleteObjects_loop E c bucket errs (enumerate n objects) s)
     = snd (DeleteObjects_loop E c bucket errs' (enumerate n' objects) s)"
  by (induction objects arbitrary: errs errs' n n' s) (auto simp: case_prod_beta Let_def)

lemma DeleteObjects_loop_before:
  "j < n \<Longrightarrow>
   fst (DeleteObjects_loop E c bucket errs (enumerate n objects) s) ! j = errs ! j"
  by (induction objects arbitrary: errs n s) (auto simp: case_prod_beta Let_def)

lemma DeleteObjects_loop_snoc:
  "DeleteObjects_loop E c bucket errs (enumerate n (objects @ [object])) s =
     (let (errs', s') = DeleteObjects_loop E c bucket errs (enumerate n objects) s;
          (r, s'') = DeleteObject E c bucket object s'
      in (errs'[n + length objects := r], s''))"
  by (induction objects arbitrary: errs n s) (auto simp: case_prod_beta Let_def)

lemma DeleteObjects_loop_nth:
  assumes "i < length objects" "n + length objects \<le> length errs"
  shows "fst (DeleteObjects_loop E c bucket errs (enumerate n objects) s) ! (n + i)
     = fst (DeleteObject E c bucket (objects ! i)
             (snd (DeleteObjects_loop E c bucket errs (enumerate n (take i objects)) s)))"
  using assms
proof (induction objects arbitrary: errs n s i)
  case Nil
  then show ?case by simp
next
  case (Cons x xs)
  show ?case
  proof (cases i)
    case 0
    then show ?thesis using Cons.prems
      by (simp add: case_prod_beta Let_def DeleteObjects_loop_before)
  next
    case (Suc k)
    let ?r = "fst (DeleteObject E c bucket x s)"
    let ?s1 = "snd (DeleteObject E c bucket x s)"
    have "fst (DeleteObjects_loop E c bucket (errs[n := ?r]) (enumerate (Suc n) xs) ?s1)
            ! (Suc n + k)
          = fst (DeleteObject E c bucket (xs ! k)
              (snd (DeleteObjects_loop E c bucket (errs[n := ?r])
                      (enumerate (Suc n) (take k xs)) ?s1)))"
      using Cons.prems Suc by (intro Cons.IH) simp_all
    then show ?thesis using Suc by (simp add: case_prod_beta Let_def)
  qed
qed

text \<open>
  Claim C10. For every bucket and list of objects, \<open>DeleteObjects\<close> returns an
  error slice as long as the list and a nil second result. The \<open>i\<close>-th error is
  what \<open>DeleteObject\<close> returns for the \<open>i\<close>-th object in the state that
  \<open>DeleteObjects\<close> reaches on the objects before it: the objects are processed
  one after the other, in input order.
\<close>

theorem DeleteObjects_pointwise:
  "length (fst (fst (DeleteObjects E c bucket objects s))) = length objects
   \<and> snd (fst (DeleteObjects E c bucket objects s)) = None
   \<and> (\<forall>i<length objects.
         fst (fst (DeleteObjects E c bucket objects s)) ! i
           = fst (DeleteObject E c bucket (objects ! i)
                   (snd (DeleteObjects E c bucket (take i objects) s)))
         \<and> snd (DeleteObjects E c bucket (take (Suc i) objects) s)
           = snd (DeleteObject E c bucket (objects ! i)
                   (snd (DeleteObjects E c bucket (take i objects) s))))
   \<and> snd (DeleteObjects E c bucket [] s) = s"
proof (intro conjI allI impI)
  show "length (fst (fst (DeleteObjects E c bucket objects s))) = length objects"
    by (simp add: DeleteObjects_def Let_def case_prod_beta DeleteObjects_loop_length)
  show "snd (fst (DeleteObjects E c bucket objects s)) = None"
    by (simp add: DeleteObjects_def Let_def case_prod_beta)
  show "snd (DeleteObjects E c bucket [] s) = s"
    by (simp add: DeleteObjects_def)
next
  fix i assume i: "i < length objects"
  have st: "snd (DeleteObjects E c bucket xs s)
              = snd (DeleteObjects_loop E c bucket errs (enumerate 0 xs) s)" for xs errs
    by (simp add: DeleteObjects_def Let_def case_prod_beta)
       (rule DeleteObjects_loop_state)
  show "fst (fst (DeleteObjects E c bucket objects s)) ! i
           = fst (DeleteObject E c bucket (objects ! i)
                   (snd (DeleteObjects E c bucket (take i objects) s)))"
    using DeleteObjects_loop_nth[of i objects 0 "replicate (length objects) None" E c bucket s] i
    by (simp add: st[of "take i objects" "replicate (length objects) None"])
       (simp add: DeleteObjects_def Let_def case_prod_beta)
  have "take (Suc i) objects = take i objects @ [objects ! i]"
    using i by (simp add: take_Suc_conv_app_nth)
  then show "snd (DeleteObjects E c bucket (take (Suc i) objects) s)
           = snd (DeleteObject E c bucket (objects ! i)
                   (snd (DeleteObjects E c bucket (take i objects) s)))"
    by (simp add: st[where errs = "[]"] DeleteObjects_loop_snoc case_prod_beta Let_def)
qed


lemma DeleteObject_result:
  "fst (DeleteObject E c bucket object s) = fst (DeleteObjectFn c bucket object (world s))"
  by (simp add: DeleteObject_cases Let_def split: sum.splits)

theorem DeleteObjects_pointwise_witness:
  "length (fst (fst (DeleteObjects exEnv
       (exCache\<lparr>DeleteObjectFn := (\<lambda>bucket object w.
           (if object = ''locked'' then Some (OtherError ''access denied'') else None, w))\<rparr>)
       ''b'' [''obj'', ''locked''] exState))) = 2
   \<and> fst (fst (DeleteObjects exEnv
       (exCache\<lparr>DeleteObjectFn := (\<lambda>bucket object w.
           (if object = ''locked'' then Some (OtherError ''access denied'') else None, w))\<rparr>)
       ''b'' [''obj'', ''locked''] exState)) ! 0 = None
   \<and> fst (fst (DeleteObjects exEnv
       (exCache\<lparr>DeleteObjectFn := (\<lambda>bucket object w.
           (if object = ''locked'' then Some (OtherError ''access denied'') else None, w))\<rparr>)
       ''b'' [''obj'', ''locked''] exState)) ! 1 = Some (OtherError ''access denied'')
   \<and> snd (fst (DeleteObjects exEnv
       (exCache\<lparr>DeleteObjectFn := (\<lambda>bucket object w.
           (if object = ''locked'' then Some (OtherError ''access denied'') else None, w))\<rparr>)
       ''b'' [''obj'', ''locked''] exState)) = None"
proof -
  let ?c = "exCache\<lparr>DeleteObjectFn := (\<lambda>bucket object w.
           (if object = ''locked'' then Some (OtherError ''access denied'') else None, w))\<rparr>"
  note T = DeleteObjects_pointwise [of exEnv ?c "''b''" "[''obj'', ''locked'']" exState]
  have len: "length (fst (fst (DeleteObjects exEnv ?c ''b'' [''obj'', ''locked''] exState))) = 2"
    using T [THEN conjunct1] by simp
  have nil: "snd (fst (DeleteObjects exEnv ?c ''b'' [''obj'', ''locked''] exState)) = None"
    using T [THEN conjunct2, THEN conjunct1] .
  note P = T [THEN conjunct2, THEN conjunct2, THEN conjunct1, rule_format]
  have e0: "fst (fst (DeleteObjects exEnv ?c ''b'' [''obj'', ''locked''] exState)) ! 0 = None"
    using P [of 0, THEN conjunct1] by (simp add: DeleteObject_result)
  have e1: "fst (fst (DeleteObjects exEnv ?c ''b'' [''obj'', ''locked''] exState)) ! 1
              = Some (OtherError ''access denied'')"
    using P [of 1, THEN conjunct1] by (simp add: DeleteObject_result)
  show ?thesis using len e0 e1 nil by (intro conjI)
qed

subsection \<open>Lock framing\<close>

lemma accessors_lock_framed:
  "lockFramed (globalObjectTimeout E) []
     (drop (length (trace s)) (trace (snd (delete E dcache bucket object s))))"
  "lockFramed (globalObjectTimeout E) []
     (drop (length (trace s)) (trace (snd (put E dcache bucket object data n opts s))))"
  "lockFramed (globalObjectTimeout E) []
     (drop (length (trace s)) (trace (snd (get E dcache bucket object rs h opts s))))"
  "lockFramed (globalObjectTimeout E) []
     (drop (length (trace s)) (trace (snd (stat E dcache bucket object s))))"
  by (simp_all add: delete_trace put_trace get_trace stat_trace locksOn_def)

text \<open>
  Claim C5 at a failing input. The entry of \<open>b/obj\<close> is stale and the backend
  has lost the object: \<open>GetObjectNInfo\<close> calls \<open>Delete\<close> on the drive after the
  read lock of its cache read has been released and without asking for the
  exclusive lock, so its trace is not lock-framed. \<open>GetObjectInfo\<close>, in the same
  situation, deletes through the lock-framed accessor. The goroutine that
  fills the cache from the tee calls \<open>Put\<close> on the drive without a lock too.
\<close>

theorem notfound_delete_without_lock:
  "trace (snd (GetObjectNInfo exStaleEnv exGoneCache ''b'' ''obj'' None [] readLock exOpts
                 exState))
     = [MigMutexLock, MigMutexUnlock, NSGetRLock ''b'' ''obj'' 60 True,
        CacheGet (DiskCache ''/mnt/cache1'') ''b'' ''obj'', NSRUnlock ''b'' ''obj'',
        BackendGetObjectInfo ''b'' ''obj'', ReaderClose exStaleReader,
        CacheDelete (DiskCache ''/mnt/cache1'') ''b'' ''obj'']
   \<and> \<not> lockFramed (globalObjectTimeout exStaleEnv) []
         (trace (snd (GetObjectNInfo exStaleEnv exGoneCache ''b'' ''obj'' None [] readLock exOpts
                        exState)))
   \<and> lockFramed (globalObjectTimeout exStaleEnv) []
         (trace (snd (GetObjectInfo exStaleEnv exGoneCache ''b'' ''obj'' exOpts exState)))
   \<and> tasks (snd (GetObjectNInfo exMissEnv exCache ''b'' ''obj'' None [] readLock exOpts exState))
       = [TeeFill (DiskCache ''/mnt/cache1'') ''b'' ''obj'' exBackendReader]
   \<and> trace (runTask exMissEnv exCache
               (TeeFill (DiskCache ''/mnt/cache1'') ''b'' ''obj'' exBackendReader) exState)
       = [CachePut (DiskCache ''/mnt/cache1'') ''b'' ''obj'']
   \<and> \<not> lockFramed (globalObjectTimeout exMissEnv) []
         (trace (runTask exMissEnv exCache
                   (TeeFill (DiskCache ''/mnt/cache1'') ''b'' ''obj'' exBackendReader) exState))"
proof -
  let ?d = "DiskCache ''/mnt/cache1''"
  have b: "fst (GetObjectInfoFn exGoneCache ''b'' ''obj'' exOpts w)
             = Inl (ObjectNotFound ''b'' ''obj'')" for w
    by (simp add: exGoneCache_def)
  have l: "fst (GetLock exStaleEnv ''b'' ''obj'' t w) = None"
    "globalObjectTimeout exStaleEnv = 60" "globalObjectTimeout exMissEnv = 60" for t w
    by (simp_all add: exStaleEnv_def exMissEnv_def exEnv_def)
  have n: "GetObjectNInfo exStaleEnv exGoneCache ''b'' ''obj'' None [] readLock exOpts exState
           = GetObjectNInfo_revalidate exStaleEnv exGoneCache ?d ''b'' ''obj'' None [] readLock
               exOpts (Inr exStaleReader)
               (snd (get exStaleEnv ?d ''b'' ''obj'' None [] exOpts
                      (snd (skipCache exGoneCache exState))))"
    using GetObjectNInfo_admitted [where E = exStaleEnv and c = exGoneCache
        and bucket = "''b''" and object = "''obj''" and s = exState and dcache = ?d,
        OF _ _ _ ex_reads(1)] ex_stale
    by simp
  have tn: "trace (snd (GetObjectNInfo exStaleEnv exGoneCache ''b'' ''obj'' None [] readLock
                          exOpts exState))
     = [MigMutexLock, MigMutexUnlock, NSGetRLock ''b'' ''obj'' 60 True,
        CacheGet ?d ''b'' ''obj'', NSRUnlock ''b'' ''obj'',
        BackendGetObjectInfo ''b'' ''obj'', ReaderClose exStaleReader,
        CacheDelete ?d ''b'' ''obj'']"
    unfolding n using b
    by (simp add: GetObjectNInfo_revalidate_def Let_def case_prod_beta backendDownError_def
          ex_read_traces)
  have i: "GetObjectInfo exStaleEnv exGoneCache ''b'' ''obj'' exOpts exState
           = (Inl (ObjectNotFound ''b'' ''obj''),
              snd (delete exStaleEnv ?d ''b'' ''obj''
                     (snd (callGetObjectInfoFn exGoneCache ''b'' ''obj'' exOpts
                            (snd (stat exStaleEnv ?d ''b'' ''obj''
                                    (snd (skipCache exGoneCache exState))))))))"
    using GetObjectInfo_admitted [where E = exStaleEnv and c = exGoneCache
        and bucket = "''b''" and object = "''obj''" and s = exState and dcache = ?d,
        OF _ _ _ ex_reads(2)] ex_stale b
    by (simp add: Let_def case_prod_beta)
  have ti: "trace (snd (GetObjectInfo exStaleEnv exGoneCache ''b'' ''obj'' exOpts exState))
       = [MigMutexLock, MigMutexUnlock, NSGetRLock ''b'' ''obj'' 60 True,
          CacheStat ?d ''b'' ''obj'', NSRUnlock ''b'' ''obj'',
          BackendGetObjectInfo ''b'' ''obj'', NSGetLock ''b'' ''obj'' 60 True,
          CacheDelete ?d ''b'' ''obj'', NSUnlock ''b'' ''obj'']"
    unfolding i using l by (simp add: delete_trace ex_read_traces)
  have tk: "tasks (snd (GetObjectNInfo exMissEnv exCache ''b'' ''obj'' None [] readLock exOpts
                          exState))
       = [TeeFill ?d ''b'' ''obj'' exBackendReader]"
    by (simp add: GetObjectNInfo_def GetObjectNInfo_revalidate_def GetObjectNInfo_fill_def
          Let_def case_prod_beta exMissEnv_def exEnv_def exCache_def exState_def
          exBackendReader_def model_defs upt_rec)
  have tp: "trace (runTask exMissEnv exCache (TeeFill ?d ''b'' ''obj'' exBackendReader) exState)
       = [CachePut ?d ''b'' ''obj'']"
    by (simp add: case_prod_beta exState_def)
  show ?thesis
    unfolding tn ti tp l using tk by (simp add: locksOn_def)
qed

subsection \<open>Migration\<close>

lemma countErrs_filter: "countErrs n errs = n + length (filter (\<lambda>err. err \<noteq> None) errs)"
  by (induction errs arbitrary: n) auto

lemma countErrs_noError: "countErrs 0 errs > 0 \<longleftrightarrow> \<not> noError errs"
  by (auto simp: countErrs_filter noError_def list_all_iff filter_empty_conv)

lemma migrate_loop_length:
  "length (fst (migrate_loop E errs ixs s)) = length errs"
  by (induction ixs arbitrary: errs s)
     (auto simp: case_prod_beta Let_def split: option.splits)

lemma migrate_loop_state:
  "snd (migrate_loop E errs ixs s) = snd (migrate_loop E errs' ixs s)"
  by (induction ixs arbitrary: errs errs' s)
     (auto simp: case_prod_beta Let_def split: option.splits)

lemma migrate_loop_events:
  "filter isMigrate (trace (snd (migrate_loop E errs ixs s)))
     = filter isMigrate (trace s) @ map MigrateOldCache (nonNil (map snd ixs))"
proof (induction ixs arbitrary: errs s)
  case Nil
  then show ?case by simp
next
  case (Cons x xs)
  then show ?case
    by (cases x; cases "snd x") (auto simp: case_prod_beta Let_def split: option.splits)
qed

lemma migrate_loop_flag:
  "filter isFlagEvent (trace (snd (migrate_loop E errs ixs s))) = filter isFlagEvent (trace s)"
  by (induction ixs arbitrary: errs s)
     (auto simp: case_prod_beta Let_def split: option.splits)

lemma migrate_loop_untouched:
  "i \<notin> fst ` set ixs \<Longrightarrow> fst (migrate_loop E errs ixs s) ! i = errs ! i"
  by (induction ixs arbitrary: errs s)
     (auto simp: case_prod_beta Let_def split: option.splits)

lemma migrate_loop_nth:
  assumes "distinct (map fst ixs)" "k < length ixs" "fst (ixs ! k) < length errs"
  shows "fst (migrate_loop E errs ixs s) ! fst (ixs ! k)
     = (case snd (ixs ! k) of
          None \<Rightarrow> errs ! fst (ixs ! k)
        | Some d \<Rightarrow>
            (case fst (migrateOldCache E d (world (snd (migrate_loop E errs (take k ixs) s)))) of
               None \<Rightarrow> errs ! fst (ixs ! k)
             | Some err \<Rightarrow> Some err))"
  using assms
proof (induction ixs arbitrary: errs s k)
  case Nil
  then show ?case by simp
next
  case (Cons x xs)
  obtain i dc where x: "x = (i, dc)" by (cases x)
  have notin: "i \<notin> fst ` set xs" using Cons.prems(1) x by auto
  show ?case
  proof (cases k)
    case 0
    then show ?thesis using x notin Cons.prems
      by (auto simp: case_prod_beta Let_def migrate_loop_untouched split: option.splits)
  next
    case (Suc j)
    have j: "j < length xs" using Cons.prems(2) Suc by simp
    have d: "distinct (map fst xs)" using Cons.prems(1) by simp
    have ne: "fst (xs ! j) \<noteq> i" using notin j by (metis image_eqI nth_mem)
    have len: "fst (xs ! j) < length errs" using Cons.prems(3) Suc by simp
    show ?thesis
    proof (cases dc)
      case None
      then show ?thesis using Cons.IH[OF d j len, of s] by (simp add: x Suc split: option.splits)
    next
      case (Some dv)
      let ?s1 = "snd (call (\<lambda>_. MigrateOldCache dv) (migrateOldCache E dv) s)"
      show ?thesis
      proof (cases "fst (migrateOldCache E dv (world s))")
        case None
        then show ?thesis
          using Cons.IH[OF d j len, of "logEv (StartPurge dv) ?s1"]
          by (simp add: x \<open>dc = Some dv\<close> Suc case_prod_beta Let_def split: option.splits)
      next
        case (Some err)
        have len': "fst (xs ! j) < length (errs[i := Some err])" using len by simp
        show ?thesis
          using Some ne Cons.IH[OF d j len', of ?s1]
          by (simp add: x \<open>dc = Some dv\<close> Suc case_prod_beta Let_def split: option.splits)
      qed
    qed
  qed
qed

lemma migrate_loop_world:
  "world (snd (migrate_loop E errs ixs s)) = migratedWorld E (map snd ixs) (world s)"
proof (induction ixs arbitrary: errs s)
  case Nil
  then show ?case by simp
next
  case (Cons x xs)
  then show ?case
    by (cases x; cases "snd x") (auto simp: case_prod_beta Let_def split: option.splits)
qed

lemma mset_nonNil:
  "mset (nonNil xs) = image_mset the (filter_mset (\<lambda>x. x \<noteq> None) (mset xs))"
  by (induction xs rule: nonNil.induct) auto

lemma valid_schedule_facts:
  assumes "validSchedule c order"
  shows "mset order = mset [0..<length (cache c)]"
    and "distinct order"
    and "set order = {0..<length (cache c)}"
    and "length order = length (cache c)"
proof -
  show m: "mset order = mset [0..<length (cache c)]"
    using assms by (metis mset_sort validSchedule_def)
  show "distinct order" using m by (metis distinct_upt mset_eq_imp_distinct_iff)
  show "set order = {0..<length (cache c)}" using m by (metis mset_eq_setD set_upt)
  show "length order = length (cache c)" using m by (metis length_upt mset_eq_length minus_nat.diff_0)
qed

lemma valid_schedule_slots:
  assumes "validSchedule c order"
  shows "mset (nonNil (map snd (goroutines c order))) = mset (nonNil (cache c))"
proof -
  have "mset (map ((!) (cache c)) order) = image_mset ((!) (cache c)) (mset order)" by simp
  also have "\<dots> = image_mset ((!) (cache c)) (mset [0..<length (cache c)])"
    using valid_schedule_facts(1)[OF assms] by simp
  also have "\<dots> = mset (map ((!) (cache c)) [0..<length (cache c)])" by simp
  also have "\<dots> = mset (cache c)" by (simp add: map_nth)
  finally have "mset (map ((!) (cache c)) order) = mset (cache c)" .
  moreover have "map snd (goroutines c order) = map ((!) (cache c)) order"
    by (simp add: goroutines_def comp_def)
  ultimately show ?thesis by (simp add: mset_nonNil)
qed

lemma migrationErrors_nth:
  assumes "validSchedule c order" "k < length order"
  shows "migrationErrors E c order s ! (order ! k) = migrationResult E c order s k"
proof -
  have d: "distinct (map fst (goroutines c order))"
    using valid_schedule_facts(2)[OF assms(1)] by (simp add: goroutines_def comp_def)
  have k: "k < length (goroutines c order)" using assms(2) by (simp add: goroutines_def)
  have "order ! k \<in> set order" using assms(2) by simp
  then have r: "order ! k < length (cache c)"
    using valid_schedule_facts(3)[OF assms(1)] by simp
  have f: "fst (goroutines c order ! k) = order ! k" "snd (goroutines c order ! k) = cache c ! (order ! k)"
    using assms(2) by (simp_all add: goroutines_def)
  have t: "take k (goroutines c order) = goroutines c (take k order)"
    by (simp add: goroutines_def take_map)
  have w: "world (snd (migrate_loop E errs (goroutines c (take k order)) s))
             = migratedWorld E (map (\<lambda>idx. cache c ! idx) (take k order)) (world s)" for errs
    by (simp add: migrate_loop_world goroutines_def comp_def)
  show ?thesis
    using migrate_loop_nth[OF d k, of "replicate (length (cache c)) None" E s] r
    by (simp add: migrationErrors_def migrationResult_def f t w split: option.splits)
qed

lemma noError_results:
  assumes "validSchedule c order"
  shows "noError (migrationErrors E c order s)
           \<longleftrightarrow> (\<forall>k<length order. migrationResult E c order s k = None)"
proof
  assume n: "noError (migrationErrors E c order s)"
  show "\<forall>k<length order. migrationResult E c order s k = None"
  proof (intro allI impI)
    fix k assume k: "k < length order"
    then have "order ! k \<in> set order" by simp
    then have "order ! k < length (migrationErrors E c order s)"
      using valid_schedule_facts(3)[OF assms]
      by (simp add: migrationErrors_def migrate_loop_length)
    then have "migrationErrors E c order s ! (order ! k) = None"
      using n by (simp add: noError_def list_all_length)
    then show "migrationResult E c order s k = None"
      using migrationErrors_nth[OF assms k, of E s] by simp
  qed
next
  assume a: "\<forall>k<length order. migrationResult E c order s k = None"
  have "migrationErrors E c order s ! i = None" if "i < length (cache c)" for i
  proof -
    have "i \<in> set order" using that valid_schedule_facts(3)[OF assms] by simp
    then obtain k where "k < length order" "order ! k = i" by (auto simp: in_set_conv_nth)
    then show ?thesis using a migrationErrors_nth[OF assms, of k E s] by auto
  qed
  then show "noError (migrationErrors E c order s)"
    by (simp add: noError_def list_all_length migrationErrors_def migrate_loop_length)
qed

lemma migrate_cases:
  "migrateCacheFromV1toV2 E c order s =
     (let s1 = snd (migrate_loop E (replicate (length (cache c)) None) (goroutines c order) s)
      in if noError (migrationErrors E c order s)
         then (c\<lparr>migrating := False\<rparr>,
               logEv MigMutexUnlock (logEv (SetMigrating False) (logEv MigMutexLock s1)))
         else (c, s1))"
  using countErrs_noError[of "migrationErrors E c order s"]
  by (simp add: migrateCacheFromV1toV2_def migrationErrors_def Let_def case_prod_beta)


lemma bypass_when_migrating:
  assumes "migrating c"
  shows "fst (GetObjectNInfo E c bucket object rs h lockType opts s)
           = fst (GetObjectNInfoFn c bucket object rs h lockType opts (world s))"
    and "filter isCacheOp (trace (snd (GetObjectNInfo E c bucket object rs h lockType opts s)))
           = filter isCacheOp (trace s)"
    and "fst (GetObjectInfo E c bucket object opts s)
           = fst (GetObjectInfoFn c bucket object opts (world s))"
    and "filter isCacheOp (trace (snd (GetObjectInfo E c bucket object opts s)))
           = filter isCacheOp (trace s)"
    and "fst (DeleteObject E c bucket object s) = fst (DeleteObjectFn c bucket object (world s))"
    and "filter isCacheOp (trace (snd (DeleteObject E c bucket object s)))
           = filter isCacheOp (trace s)"
  using assms
  by (simp_all add: GetObjectNInfo_def GetObjectInfo_def DeleteObject_cases Let_def
        case_prod_beta)

text \<open>
  Claim C9, as the code has it. While \<open>migrating\<close> is set, \<open>skipCache\<close> returns
  true and \<open>GetObjectNInfo\<close>, \<open>GetObjectInfo\<close> and \<open>DeleteObject\<close> return what the
  backend returns without reading or writing a drive. Whatever the order in
  which the goroutines of \<open>migrateCacheFromV1toV2\<close> run, \<open>migrateOldCache\<close> is run
  once for every non-nil slot, an error of one does not keep the others from
  running, and the error slice holds at each index what \<open>migrateOldCache\<close>
  returned for that slot. If no migration returned an error, the coordinator
  locks the mutex, clears \<open>migrating\<close> and unlocks, as its last three steps, and
  \<open>skipCache\<close> returns false from then on. If a migration returned an error, the
  coordinator is left as it was, the mutex is not taken and the flag not
  written: \<open>skipCache\<close> keeps returning what it returned before.
\<close>

theorem migration_gate:
  "(migrating c
     \<longrightarrow> fst (skipCache c s)
       \<and> fst (GetObjectNInfo E c bucket object rs h lockType opts s)
           = fst (GetObjectNInfoFn c bucket object rs h lockType opts (world s))
       \<and> filter isCacheOp (trace (snd (GetObjectNInfo E c bucket object rs h lockType opts s)))
           = filter isCacheOp (trace s)
       \<and> fst (GetObjectInfo E c bucket object opts s)
           = fst (GetObjectInfoFn c bucket object opts (world s))
       \<and> filter isCacheOp (trace (snd (GetObjectInfo E c bucket object opts s)))
           = filter isCacheOp (trace s)
       \<and> fst (DeleteObject E c bucket object s) = fst (DeleteObjectFn c bucket object (world s))
       \<and> filter isCacheOp (trace (snd (DeleteObject E c bucket object s)))
           = filter isCacheOp (trace s))
   \<and> (validSchedule c order
     \<longrightarrow> mset (filter isMigrate (trace (snd (migrateCacheFromV1toV2 E c order s))))
           = mset (filter isMigrate (trace s)) + mset (map MigrateOldCache (nonNil (cache c)))
       \<and> length (migrationErrors E c order s) = length (cache c)
       \<and> (\<forall>k<length order.
             migrationErrors E c order s ! (order ! k) = migrationResult E c order s k)
       \<and> ((\<forall>k<length order. migrationResult E c order s k = None)
           \<longrightarrow> fst (migrateCacheFromV1toV2 E c order s) = c\<lparr>migrating := False\<rparr>
             \<and> \<not> migrating (fst (migrateCacheFromV1toV2 E c order s))
             \<and> (\<forall>s'. \<not> fst (skipCache (fst (migrateCacheFromV1toV2 E c order s)) s'))
             \<and> filter isFlagEvent (trace (snd (migrateCacheFromV1toV2 E c order s)))
                 = filter isFlagEvent (trace s)
                   @ [MigMutexLock, SetMigrating False, MigMutexUnlock]
             \<and> drop (length (trace (snd (migrateCacheFromV1toV2 E c order s))) - 3)
                  (trace (snd (migrateCacheFromV1toV2 E c order s)))
                 = [MigMutexLock, SetMigrating False, MigMutexUnlock])
       \<and> ((\<exists>k<length order. migrationResult E c order s k \<noteq> None)
           \<longrightarrow> fst (migrateCacheFromV1toV2 E c order s) = c
             \<and> (\<forall>s'. fst (skipCache (fst (migrateCacheFromV1toV2 E c order s)) s')
                       = migrating c)
             \<and> filter isFlagEvent (trace (snd (migrateCacheFromV1toV2 E c order s)))
                 = filter isFlagEvent (trace s)))"
proof (intro conjI impI allI)
  assume m: "migrating c"
  show "fst (skipCache c s)" using m by simp
  show "fst (GetObjectNInfo E c bucket object rs h lockType opts s)
           = fst (GetObjectNInfoFn c bucket object rs h lockType opts (world s))"
    using m by (rule bypass_when_migrating)
  show "filter isCacheOp (trace (snd (GetObjectNInfo E c bucket object rs h lockType opts s)))
           = filter isCacheOp (trace s)"
    using m by (rule bypass_when_migrating)
  show "fst (GetObjectInfo E c bucket object opts s)
           = fst (GetObjectInfoFn c bucket object opts (world s))"
    using m by (rule bypass_when_migrating)
  show "filter isCacheOp (trace (snd (GetObjectInfo E c bucket object opts s)))
           = filter isCacheOp (trace s)"
    using m by (rule bypass_when_migrating)
  show "fst (DeleteObject E c bucket object s) = fst (DeleteObjectFn c bucket object (world s))"
    using m by (rule bypass_when_migrating)
  show "filter isCacheOp (trace (snd (DeleteObject E c bucket object s)))
           = filter isCacheOp (trace s)"
    using m by (rule bypass_when_migrating)
next
  assume v: "validSchedule c order"
  show "mset (filter isMigrate (trace (snd (migrateCacheFromV1toV2 E c order s))))
           = mset (filter isMigrate (trace s)) + mset (map MigrateOldCache (nonNil (cache c)))"
  proof -
    have "filter isMigrate (trace (snd (migrateCacheFromV1toV2 E c order s)))
            = filter isMigrate (trace s)
              @ map MigrateOldCache (nonNil (map snd (goroutines c order)))"
      by (simp add: migrate_cases Let_def migrate_loop_events)
    then have "mset (filter isMigrate (trace (snd (migrateCacheFromV1toV2 E c order s))))
            = mset (filter isMigrate (trace s))
              + image_mset MigrateOldCache (mset (nonNil (map snd (goroutines c order))))"
      by (simp only: mset_append mset_map)
    then show ?thesis
      by (simp only: valid_schedule_slots[OF v] mset_map)
  qed
  show "length (migrationErrors E c order s) = length (cache c)"
    by (simp add: migrationErrors_def migrate_loop_length)
next
  fix k assume "validSchedule c order" "k < length order"
  then show "migrationErrors E c order s ! (order ! k) = migrationResult E c order s k"
    by (rule migrationErrors_nth)
next
  assume v: "validSchedule c order"
    and a: "\<forall>k<length order. migrationResult E c order s k = None"
  then have n: "noError (migrationErrors E c order s)" by (simp add: noError_results)
  show "fst (migrateCacheFromV1toV2 E c order s) = c\<lparr>migrating := False\<rparr>"
    and "\<not> migrating (fst (migrateCacheFromV1toV2 E c order s))"
    and "filter isFlagEvent (trace (snd (migrateCacheFromV1toV2 E c order s)))
                 = filter isFlagEvent (trace s)
                   @ [MigMutexLock, SetMigrating False, MigMutexUnlock]"
    and "drop (length (trace (snd (migrateCacheFromV1toV2 E c order s))) - 3)
                  (trace (snd (migrateCacheFromV1toV2 E c order s)))
                 = [MigMutexLock, SetMigrating False, MigMutexUnlock]"
    using n by (simp_all add: migrate_cases Let_def migrate_loop_flag)
  fix s' show "\<not> fst (skipCache (fst (migrateCacheFromV1toV2 E c order s)) s')"
    using n by (simp add: migrate_cases Let_def)
next
  assume v: "validSchedule c order"
    and a: "\<exists>k<length order. migrationResult E c order s k \<noteq> None"
  then have n: "\<not> noError (migrationErrors E c order s)" by (simp add: noError_results)
  show "fst (migrateCacheFromV1toV2 E c order s) = c"
    and "filter isFlagEvent (trace (snd (migrateCacheFromV1toV2 E c order s)))
                 = filter isFlagEvent (trace s)"
    using n by (simp_all add: migrate_cases Let_def migrate_loop_flag)
  fix s' show "fst (skipCache (fst (migrateCacheFromV1toV2 E c order s)) s') = migrating c"
    using n by (simp add: migrate_cases Let_def)
qed


lemma ex_schedule: "validSchedule exMigCache [2, 0, 3, 1]"
  by (simp add: validSchedule_def exMigCache_def exCache_def upt_rec)

theorem migration_gate_witness:
  "fst (skipCache exMigCache exState)
   \<and> fst (GetObjectInfo exEnv exMigCache ''b'' ''obj'' exOpts exState) = Inr exInfo
   \<and> filter isCacheOp (trace (snd (GetObjectInfo exEnv exMigCache ''b'' ''obj'' exOpts exState)))
       = []
   \<and> mset (filter isMigrate
             (trace (snd (migrateCacheFromV1toV2 exMigEnv exMigCache [2, 0, 3, 1] exState))))
       = mset [MigrateOldCache (DiskCache ''/mnt/cache1''),
               MigrateOldCache (DiskCache ''/mnt/cache3''),
               MigrateOldCache (DiskCache ''/mnt/cache4'')]
   \<and> migrationErrors exMigEnv exMigCache [2, 0, 3, 1] exState ! 0
       = Some (OtherError ''rename failed'')
   \<and> \<not> migrating (fst (migrateCacheFromV1toV2 exEnv exMigCache [2, 0, 3, 1] exState))
   \<and> filter isFlagEvent
        (trace (snd (migrateCacheFromV1toV2 exEnv exMigCache [2, 0, 3, 1] exState)))
       = [MigMutexLock, SetMigrating False, MigMutexUnlock]
   \<and> fst (migrateCacheFromV1toV2 exMigEnv exMigCache [2, 0, 3, 1] exState) = exMigCache"
proof -
  have m: "migrating exMigCache" by (simp add: exMigCache_def)
  have ok: "\<forall>k<length [2, 0, 3, 1::nat]. migrationResult exEnv exMigCache [2, 0, 3, 1] exState k
              = None"
    by (simp add: migrationResult_def exEnv_def split: option.splits)
  have r1: "migrationResult exMigEnv exMigCache [2, 0, 3, 1] exState 1
              = Some (OtherError ''rename failed'')"
    by (simp add: migrationResult_def exMigEnv_def exMigCache_def exCache_def)
  then have bad: "\<exists>k<length [2, 0, 3, 1::nat].
                    migrationResult exMigEnv exMigCache [2, 0, 3, 1] exState k \<noteq> None"
    by (intro exI[of _ 1]) simp
  note G = migration_gate [of exMigCache exState exEnv "''b''" "''obj''" None "[]" readLock exOpts
             "[2, 0, 3, 1]"]
  note B = migration_gate [of exMigCache exState exMigEnv "''b''" "''obj''" None "[]" readLock
             exOpts "[2, 0, 3, 1]"]
  note G1 = G [THEN conjunct1, THEN mp, OF m]
  note G2 = G [THEN conjunct2, THEN mp, OF ex_schedule]
  note B2 = B [THEN conjunct2, THEN mp, OF ex_schedule]
  have a: "fst (skipCache exMigCache exState)"
    using G1 [THEN conjunct1] .
  have b: "fst (GetObjectInfo exEnv exMigCache ''b'' ''obj'' exOpts exState) = Inr exInfo"
    using G1 [THEN conjunct2, THEN conjunct2, THEN conjunct2, THEN conjunct1]
    by (simp add: exMigCache_def exCache_def)
  have c: "filter isCacheOp
             (trace (snd (GetObjectInfo exEnv exMigCache ''b'' ''obj'' exOpts exState))) = []"
    using G1 [THEN conjunct2, THEN conjunct2, THEN conjunct2, THEN conjunct2, THEN conjunct1]
    by (simp add: exState_def)
  have d: "mset (filter isMigrate
             (trace (snd (migrateCacheFromV1toV2 exMigEnv exMigCache [2, 0, 3, 1] exState))))
       = mset [MigrateOldCache (DiskCache ''/mnt/cache1''),
               MigrateOldCache (DiskCache ''/mnt/cache3''),
               MigrateOldCache (DiskCache ''/mnt/cache4'')]"
    using B2 [THEN conjunct1]
    by (simp add: exState_def exMigCache_def exCache_def)
  have "migrationErrors exMigEnv exMigCache [2, 0, 3, 1] exState ! ([2, 0, 3, 1] ! 1)
          = migrationResult exMigEnv exMigCache [2, 0, 3, 1] exState 1"
    using B2 [THEN conjunct2, THEN conjunct2, THEN conjunct1, rule_format, of 1] by simp
  then have e: "migrationErrors exMigEnv exMigCache [2, 0, 3, 1] exState ! 0
       = Some (OtherError ''rename failed'')"
    using r1 by simp
  note G3 = G2 [THEN conjunct2, THEN conjunct2, THEN conjunct2, THEN conjunct1, THEN mp, OF ok]
  have f: "\<not> migrating (fst (migrateCacheFromV1toV2 exEnv exMigCache [2, 0, 3, 1] exState))"
    using G3 [THEN conjunct2, THEN conjunct1] .
  have g: "filter isFlagEvent
        (trace (snd (migrateCacheFromV1toV2 exEnv exMigCache [2, 0, 3, 1] exState)))
       = [MigMutexLock, SetMigrating False, MigMutexUnlock]"
    using G3 [THEN conjunct2, THEN conjunct2, THEN conjunct2, THEN conjunct1]
    by (simp add: exState_def)
  have h: "fst (migrateCacheFromV1toV2 exMigEnv exMigCache [2, 0, 3, 1] exState) = exMigCache"
    using B2 [THEN conjunct2, THEN conjunct2, THEN conjunct2, THEN conjunct2, THEN mp, OF bad,
              THEN conjunct1] .
  show ?thesis using a b c d e f g h by (intro conjI)
qed

text \<open>
  Claim C9 as stated fails. The migration of the first drive returns an error.
  In a run in which the goroutines of the slots run in the order 2, 0, 3, 1, as
  in one in which they run in slot order, the migrations of all three drives
  have run, the other two have completed and started their purge routines, and
  \<open>migrating\<close> is still set: \<open>skipCache\<close> keeps returning true.
\<close>

theorem migration_error_keeps_gate_counterexample:
  "migrating exMigCache
   \<and> fst (migrateOldCache exMigEnv (DiskCache ''/mnt/cache1'') ())
       = Some (OtherError ''rename failed'')
   \<and> validSchedule exMigCache [2, 0, 3, 1]
   \<and> set (trace (snd (migrateCacheFromV1toV2 exMigEnv exMigCache [2, 0, 3, 1] exState)))
       = {MigrateOldCache (DiskCache ''/mnt/cache3''), StartPurge (DiskCache ''/mnt/cache3''),
          MigrateOldCache (DiskCache ''/mnt/cache1''),
          MigrateOldCache (DiskCache ''/mnt/cache4''), StartPurge (DiskCache ''/mnt/cache4'')}
   \<and> migrating (fst (migrateCacheFromV1toV2 exMigEnv exMigCache [2, 0, 3, 1] exState))
   \<and> fst (skipCache (fst (migrateCacheFromV1toV2 exMigEnv exMigCache [2, 0, 3, 1] exState))
            (snd (migrateCacheFromV1toV2 exMigEnv exMigCache [2, 0, 3, 1] exState)))
   \<and> validSchedule exMigCache [0, 1, 2, 3]
   \<and> set (trace (snd (migrateCacheFromV1toV2 exMigEnv exMigCache [0, 1, 2, 3] exState)))
       = {MigrateOldCache (DiskCache ''/mnt/cache1''),
          MigrateOldCache (DiskCache ''/mnt/cache3''), StartPurge (DiskCache ''/mnt/cache3''),
          MigrateOldCache (DiskCache ''/mnt/cache4''), StartPurge (DiskCache ''/mnt/cache4'')}
   \<and> migrating (fst (migrateCacheFromV1toV2 exMigEnv exMigCache [0, 1, 2, 3] exState))
   \<and> fst (skipCache (fst (migrateCacheFromV1toV2 exMigEnv exMigCache [0, 1, 2, 3] exState))
            (snd (migrateCacheFromV1toV2 exMigEnv exMigCache [0, 1, 2, 3] exState)))"
  by (simp add: migrateCacheFromV1toV2_def goroutines_def validSchedule_def exMigEnv_def
        exMigCache_def exEnv_def exCache_def exState_def call_def logEv_def skipCache_def
        Let_def upt_rec)

end
